theory Spec2Isabelle
  imports Main "HOL-Library.Multiset"
begin

section \<open>Nessus CSV to DOCX report: model of app.py\<close>

text \<open>
  The program reads a table of findings with the columns Host, Risk, Name, Description and
  Solution, filters and normalises the Risk column, groups the rows by host and severity, and
  appends headings, charts and one table per finding to a template document.

  The model starts from the table that \<^verbatim>\<open>pandas.read_csv\<close> returns at line 79 and from the body
  of the template that line 98 opens, and it ends with the document that line 167 writes.
  Reading the two input files and writing the output file are outside of it. Numbers in
  headings are Python integers printed by an f-string; they are natural numbers here.
\<close>

subsection \<open>Text\<close>

text \<open>Strings are byte strings (UTF-8). The letters a to z and A to Z, put in upper and in lower
  case; every other character is left as it is.\<close>

definition char_upper :: "char \<Rightarrow> char" where
  "char_upper c =
     (let n = (of_char c :: nat) in if 97 \<le> n \<and> n \<le> 122 then char_of (n - 32) else c)"

definition char_lower :: "char \<Rightarrow> char" where
  "char_lower c =
     (let n = (of_char c :: nat) in if 65 \<le> n \<and> n \<le> 90 then char_of (n + 32) else c)"

definition ascii :: "string \<Rightarrow> bool" where
  "ascii s = list_all (\<lambda>c. (of_char c :: nat) < 128) s"

text \<open>\<^verbatim>\<open>str.capitalize\<close>. The program applies it to the three constants of its severity order
  only, which are plain letters.\<close>

definition capitalize :: "string \<Rightarrow> string" where
  "capitalize s = (case s of [] \<Rightarrow> [] | c # cs \<Rightarrow> char_upper c # map char_lower cs)"

text \<open>\<^verbatim>\<open>s.replace('.', '_')\<close>, as used for the chart file name of a host.\<close>

definition replace_dots :: "string \<Rightarrow> string" where
  "replace_dots s = map (\<lambda>c. if c = CHR ''.'' then CHR ''_'' else c) s"

text \<open>An integer inside an f-string: its decimal digits.\<close>

definition digit_char :: "nat \<Rightarrow> char" where
  "digit_char d = char_of (48 + d)"

fun str_nat :: "nat \<Rightarrow> string" where
  "str_nat n = (if n < 10 then [digit_char n] else str_nat (n div 10) @ [digit_char (n mod 10)])"

declare str_nat.simps [simp del]

subsection \<open>What Python and the libraries decide\<close>

text \<open>The program leaves a number of decisions to Python, pandas, python-docx and the
  template. They are parameters of the model:
  \<^item> \<^verbatim>\<open>str.upper\<close> and \<^verbatim>\<open>str.lower\<close>, which follow Unicode;
  \<^item> for a value of the table that is neither missing nor a string (a number or a truth value
    of a column that \<^verbatim>\<open>read_csv\<close> did not keep as text): how an f-string prints it and
    whether it counts as true. The model stands for such a value by a number, equal numbers
    for equal values, and does not look inside it;
  \<^item> whether python-docx accepts a text (it refuses control characters that XML does not
    allow);
  \<^item> whether the template defines a paragraph style.\<close>

record runtime =
  rt_upper :: "string \<Rightarrow> string"
  rt_lower :: "string \<Rightarrow> string"
  rt_str :: "nat \<Rightarrow> string"
  rt_bool :: "nat \<Rightarrow> bool"
  xml_ok :: "string \<Rightarrow> bool"
  has_style :: "string \<Rightarrow> bool"

text \<open>What the theorems use of Unicode: on a string of ASCII characters the two methods change
  the letters a to z and A to Z and nothing else; and only a string of ASCII characters
  becomes the word none in lower case (no character outside of ASCII has n, o or e as its
  lower case).\<close>

definition python_case :: "runtime \<Rightarrow> bool" where
  "python_case p =
     ((\<forall>s. ascii s \<longrightarrow> rt_upper p s = map char_upper s \<and> rt_lower p s = map char_lower s)
      \<and> (\<forall>s. rt_lower p s = ''none'' \<longrightarrow> ascii s))"

subsection \<open>The table\<close>

text \<open>A cell of the table: missing (pandas stores the float NaN), a string, or another value.
  The table is as \<^verbatim>\<open>read_csv\<close> returns it: an empty field and the loader's other markers of a
  missing value are read as NaN, and a column holds strings or other values, not both.\<close>

datatype cell = NaN | Str string | Other nat

text \<open>A value inside an f-string: the float NaN prints as \<^verbatim>\<open>nan\<close>.\<close>

fun fmt :: "runtime \<Rightarrow> cell \<Rightarrow> string" where
  "fmt p NaN = ''nan''"
| "fmt p (Str s) = s"
| "fmt p (Other v) = rt_str p v"

record row =
  Host :: cell
  Risk :: cell
  Name :: cell
  Description :: cell
  Solution :: cell

text \<open>A column is a text column when it holds a string; the columns of a table without rows
  are text columns. A column of a table with rows that holds no string is a column of
  numbers or truth values (a float column when all its cells are missing).\<close>

fun is_str :: "cell \<Rightarrow> bool" where
  "is_str (Str s) = True"
| "is_str c = False"

definition text_column :: "cell list \<Rightarrow> bool" where
  "text_column col = (col = [] \<or> list_ex is_str col)"

text \<open>A column as the loader returns it: next to its missing cells it holds strings or other
  values, not both, and none of its strings is empty, because the loader reads an empty field
  as missing.\<close>

definition loaded_column :: "cell list \<Rightarrow> bool" where
  "loaded_column col =
     ((list_all (\<lambda>c. c = NaN \<or> is_str c) col \<or> list_all (\<lambda>c. \<not> is_str c) col)
      \<and> \<not> list_ex (\<lambda>c. c = Str []) col)"

subsection \<open>Errors\<close>

text \<open>The exceptions that the modelled statements raise. Nothing in the program catches an
  exception, so each of them ends the run.\<close>

datatype error =
    AttributeError
  | TypeError
  | ValueError
  | KeyError
  | SavefigError
  | PictureError

subsection \<open>Filtering and normalising (lines 82 to 86)\<close>

definition notna :: "cell \<Rightarrow> bool" where
  "notna c = (c \<noteq> NaN)"

text \<open>The \<^verbatim>\<open>.str\<close> methods of a column work cell by cell; a cell that is not a string gives
  NaN.\<close>

fun cell_lower :: "runtime \<Rightarrow> cell \<Rightarrow> cell" where
  "cell_lower p (Str s) = Str (rt_lower p s)"
| "cell_lower p c = NaN"

fun cell_upper :: "runtime \<Rightarrow> cell \<Rightarrow> cell" where
  "cell_upper p (Str s) = Str (rt_upper p s)"
| "cell_upper p c = NaN"

text \<open>\<^verbatim>\<open>Series.eq\<close> and \<^verbatim>\<open>==\<close> on a column: NaN is equal to nothing.\<close>

fun cell_eq :: "cell \<Rightarrow> cell \<Rightarrow> bool" where
  "cell_eq (Str a) (Str b) = (a = b)"
| "cell_eq (Other a) (Other b) = (a = b)"
| "cell_eq _ _ = False"

text \<open>\<^verbatim>\<open>.replace({'HIGH': 'CRITICAL'})\<close>.\<close>

definition replace_high :: "cell \<Rightarrow> cell" where
  "replace_high c = (if c = Str ''HIGH'' then Str ''CRITICAL'' else c)"

definition normalize_row :: "runtime \<Rightarrow> row \<Rightarrow> row" where
  "normalize_row p r = r\<lparr>Risk := replace_high (cell_upper p (Risk r))\<rparr>"

text \<open>Line 82 keeps the rows whose Risk is not missing. The \<^verbatim>\<open>.str\<close> accessor of line 83
  exists on a text column only, and raises AttributeError on any other column. Lines 83 to 86
  then drop the rows whose Risk is none in lower case, and replace the Risk of each row that is
  left by its normalised form.\<close>

definition load_findings :: "runtime \<Rightarrow> row list \<Rightarrow> error + row list" where
  "load_findings p df0 =
     (let df1 = filter (\<lambda>r. notna (Risk r)) df0 in
      if \<not> text_column (map Risk df0) then Inl AttributeError
      else
        let df2 = filter (\<lambda>r. \<not> cell_eq (cell_lower p (Risk r)) (Str ''none'')) df1
        in Inr (map (normalize_row p) df2))"

text \<open>The two conditions of lines 82 and 83 on one cell, taken together: the cell is dropped
  when it is missing or when its lower case is none. \<open>kept_rows\<close> is the table after line
  86, written with one filter.\<close>

definition dropped :: "runtime \<Rightarrow> cell \<Rightarrow> bool" where
  "dropped p c = (\<not> notna c \<or> cell_eq (cell_lower p c) (Str ''none''))"

definition kept_rows :: "runtime \<Rightarrow> row list \<Rightarrow> row list" where
  "kept_rows p df0 = map (normalize_row p) (filter (\<lambda>r. \<not> dropped p (Risk r)) df0)"

subsection \<open>Grouping (lines 88 to 95)\<close>

record vuln =
  title :: cell
  description :: cell
  solution :: cell
  risk :: cell

definition to_vuln :: "row \<Rightarrow> vuln" where
  "to_vuln r = \<lparr>title = Name r, description = Description r, solution = Solution r, risk = Risk r\<rparr>"

text \<open>A \<^verbatim>\<open>defaultdict\<close> keeps its keys in the order in which they were first used. It is an
  association list here; \<open>dd_update k d f\<close> is the access \<^verbatim>\<open>m[k]\<close> followed by a change of
  the value found, where a key that is not there yet is added at the end with the default.\<close>

fun dd_update :: "'k \<Rightarrow> 'v \<Rightarrow> ('v \<Rightarrow> 'v) \<Rightarrow> ('k \<times> 'v) list \<Rightarrow> ('k \<times> 'v) list" where
  "dd_update k d f [] = [(k, f d)]"
| "dd_update k d f ((k', v) # kvs) =
     (if k = k' then (k', f v) # kvs else (k', v) # dd_update k d f kvs)"

type_synonym severities = "(cell \<times> vuln list) list"
type_synonym grouped = "(cell \<times> severities) list"

text \<open>One step of the loop of line 89. A missing host needs care, because NaN is not equal to
  itself and a dictionary finds it by identity only. In a Host column that is a text column
  all missing cells are one and the same object, and the rows with a missing host share one
  key (\<open>shared\<close>). In any other Host column \<^verbatim>\<open>iterrows\<close> makes a new float of every cell, and
  every row with a missing host gets a key of its own.\<close>

definition group_row :: "bool \<Rightarrow> grouped \<Rightarrow> row \<Rightarrow> grouped" where
  "group_row shared g r =
     (if Host r = NaN \<and> \<not> shared then g @ [(NaN, [(Risk r, [to_vuln r])])]
      else dd_update (Host r) [] (dd_update (Risk r) [] (\<lambda>vs. vs @ [to_vuln r])) g)"

definition group_findings :: "bool \<Rightarrow> row list \<Rightarrow> grouped" where
  "group_findings shared df = foldl (group_row shared) [] df"

text \<open>\<^verbatim>\<open>grouped[host][severity]\<close> read without creating anything: the empty list when the
  host or the severity is not a key.\<close>

definition bucket :: "grouped \<Rightarrow> cell \<Rightarrow> cell \<Rightarrow> vuln list" where
  "bucket g h s =
     (case map_of g h of
        None \<Rightarrow> []
      | Some sevs \<Rightarrow> (case map_of sevs s of None \<Rightarrow> [] | Some vs \<Rightarrow> vs))"

text \<open>The same read, telling a key that is not there from an empty list.\<close>

definition sev_lookup :: "grouped \<Rightarrow> cell \<Rightarrow> cell \<Rightarrow> vuln list option" where
  "sev_lookup g h s = (case map_of g h of None \<Rightarrow> None | Some sevs \<Rightarrow> map_of sevs s)"

text \<open>A finding is stored under a host and a severity when some entry of that host has a
  bucket of that severity that holds it.\<close>

definition stored :: "grouped \<Rightarrow> cell \<Rightarrow> cell \<Rightarrow> vuln \<Rightarrow> bool" where
  "stored g h s v =
     list_ex (\<lambda>(h', sevs). h' = h \<and> list_ex (\<lambda>(s', vs). s' = s \<and> v \<in> set vs) sevs) g"

subsection \<open>The document\<close>

text \<open>The document is the sequence of the block items of its body. The program only appends to
  it. A run inside a table cell is written by the helper \<^verbatim>\<open>add_paragraph\<close> (bold flag, size
  in points, colour; the font is always Aptos) or by the library's \<^verbatim>\<open>cell.add_paragraph\<close>
  (plain text). A chart is kept by the data it draws: its title and its bars (figure size,
  axis labels and the bar colours red, orange, yellow are constants).\<close>

datatype run =
    Run string bool nat "string option"
  | PlainRun string

record tcell =
  shd :: "string list"
  pars :: "run list list"

record chart =
  chart_title :: string
  bars :: "(string \<times> nat) list"

datatype element =
    PageBreak
  | Paragraph string string
  | Picture chart
  | Table "tcell list"

type_synonym document = "element list"

definition bind :: "error + 'a \<Rightarrow> ('a \<Rightarrow> error + 'b) \<Rightarrow> error + 'b" where
  "bind m f = (case m of Inl e \<Rightarrow> Inl e | Inr a \<Rightarrow> f a)"

text \<open>The library's \<^verbatim>\<open>add_run(text)\<close>, which every text of the document goes through. The
  library does nothing with a text that counts as false (the empty string, a zero). It walks
  through the characters of any other text: that raises TypeError for a value that is not a
  string (the float NaN counts as true), and ValueError for a string that XML does not
  allow. The result is the text of the run.\<close>

fun add_run :: "runtime \<Rightarrow> cell \<Rightarrow> error + string" where
  "add_run p NaN = Inl TypeError"
| "add_run p (Other v) = (if rt_bool p v then Inl TypeError else Inr [])"
| "add_run p (Str s) = (if s \<noteq> [] \<and> \<not> xml_ok p s then Inl ValueError else Inr s)"

text \<open>The library's \<^verbatim>\<open>document.add_paragraph(text, style)\<close>: the run first, then the style,
  which the template has to define (KeyError otherwise).\<close>

definition doc_add_paragraph :: "runtime \<Rightarrow> document \<Rightarrow> string \<Rightarrow> string \<Rightarrow> error + document" where
  "doc_add_paragraph p doc s style =
     bind (add_run p (Str s)) (\<lambda>t.
       if has_style p style then Inr (doc @ [Paragraph t style]) else Inl KeyError)"

text \<open>Lines 17 to 25. The argument is a value taken from the table; \<^verbatim>\<open>severity.upper()\<close> needs
  a string.\<close>

fun get_severity_color :: "runtime \<Rightarrow> cell \<Rightarrow> error + string" where
  "get_severity_color p (Str severity) =
     (let severity = rt_upper p severity in
      if severity = ''CRITICAL'' \<or> severity = ''HIGH'' then Inr ''FF0000''
      else if severity = ''MEDIUM'' then Inr ''FFA500''
      else if severity = ''LOW'' then Inr ''FFFF00''
      else Inr ''D3D3D3'')"
| "get_severity_color p c = Inl AttributeError"

text \<open>A cell of a new table holds one empty paragraph and no shading.\<close>

definition new_cell :: tcell where
  "new_cell = \<lparr>shd = [], pars = [[]]\<rparr>"

text \<open>Lines 27 to 32.\<close>

definition set_cell_background :: "tcell \<Rightarrow> string \<Rightarrow> tcell" where
  "set_cell_background c rgb_hex = c\<lparr>shd := shd c @ [rgb_hex]\<rparr>"

text \<open>Lines 42 to 50: a run in the first paragraph of the cell.\<close>

definition add_paragraph ::
  "runtime \<Rightarrow> tcell \<Rightarrow> cell \<Rightarrow> bool \<Rightarrow> nat \<Rightarrow> string option \<Rightarrow> error + tcell" where
  "add_paragraph p c t bold sz color =
     bind (add_run p t) (\<lambda>s.
       let r = Run s bold sz color in
       case pars c of
         [] \<Rightarrow> Inr (c\<lparr>pars := [[r]]\<rparr>)
       | q # qs \<Rightarrow> Inr (c\<lparr>pars := (q @ [r]) # qs\<rparr>))"

text \<open>The library's \<^verbatim>\<open>cell.add_paragraph(text)\<close>: a new last paragraph, with a run when the
  text counts as true.\<close>

definition cell_add_paragraph :: "runtime \<Rightarrow> tcell \<Rightarrow> cell \<Rightarrow> error + tcell" where
  "cell_add_paragraph p c t =
     bind (add_run p t) (\<lambda>s. Inr (c\<lparr>pars := pars c @ [if s = [] then [] else [PlainRun s]]\<rparr>))"

subsection \<open>Charts (lines 62 to 76)\<close>

text \<open>\<^verbatim>\<open>value_counts()\<close> counts each value that is not missing; \<^verbatim>\<open>reindex\<close> then reads the
  counts of the given labels, with the fill value for a label that has no count. The order in
  which \<^verbatim>\<open>value_counts\<close> lists the values is not used after \<^verbatim>\<open>reindex\<close>.\<close>

definition value_counts :: "cell list \<Rightarrow> (cell \<times> nat) list" where
  "value_counts col = (let vs = filter notna col in map (\<lambda>v. (v, count_list vs v)) (remdups vs))"

definition reindex :: "(cell \<times> nat) list \<Rightarrow> string list \<Rightarrow> nat \<Rightarrow> (string \<times> nat) list" where
  "reindex vc labels fill_value =
     map (\<lambda>k. (k, case map_of vc (Str k) of None \<Rightarrow> fill_value | Some n \<Rightarrow> n)) labels"

definition severity_counts :: "row list \<Rightarrow> (string \<times> nat) list" where
  "severity_counts df = reindex (value_counts (map Risk df)) [''CRITICAL'', ''MEDIUM'', ''LOW''] 0"

text \<open>What the run does not decide: whether writing the image file and reading it back into
  the document succeed, by file name.\<close>

record env =
  savefig_ok :: "string \<Rightarrow> bool"
  add_picture_ok :: "string \<Rightarrow> bool"

text \<open>The state next to the document is the set of the files that exist. \<^verbatim>\<open>savefig\<close> creates
  the chart file, \<^verbatim>\<open>add_picture\<close> appends the picture, \<^verbatim>\<open>os.remove\<close> deletes the file. An
  exception leaves the files as they are at that moment.\<close>

definition add_severity_chart ::
  "env \<Rightarrow> row list \<Rightarrow> document \<Rightarrow> string \<Rightarrow> string \<Rightarrow> string set \<Rightarrow> string set \<times> (error + document)" where
  "add_severity_chart e df doc chart_name ttl fs =
     (let counts = severity_counts df in
      if \<not> savefig_ok e chart_name then (fs, Inl SavefigError)
      else
        let fs1 = insert chart_name fs in
        if \<not> add_picture_ok e chart_name then (fs1, Inl PictureError)
        else (fs1 - {chart_name}, Inr (doc @ [Picture \<lparr>chart_title = ttl, bars = counts\<rparr>])))"

subsection \<open>Rendering (lines 98 to 167)\<close>

definition severity_order :: "string list" where
  "severity_order = [''CRITICAL'', ''MEDIUM'', ''LOW'']"

text \<open>Lines 137 to 163: the table of one finding, five rows of one cell, borders removed.
  Creating the table reads the page width and the margins of the last section of the
  template; the model takes them as present, as in every document that a word processor has
  written.\<close>

definition vuln_table :: "runtime \<Rightarrow> vuln \<Rightarrow> error + tcell list" where
  "vuln_table p v =
     bind (get_severity_color p (risk v)) (\<lambda>rgb.
     bind (add_paragraph p (set_cell_background new_cell rgb) (title v) True 16 (Some ''FFFFFF''))
       (\<lambda>c0.
     bind (add_paragraph p new_cell (Str (''Risk: '' @ fmt p (risk v))) True 12 None) (\<lambda>c1.
     bind (add_paragraph p new_cell (Str ''Description:'') True 12 None) (\<lambda>desc_cell.
     bind (cell_add_paragraph p desc_cell (description v)) (\<lambda>c2.
     bind (add_paragraph p new_cell (Str ''Impact:'') True 12 None) (\<lambda>impact_cell.
     bind (cell_add_paragraph p impact_cell (Str ''Impact information not available.'')) (\<lambda>c3.
     bind (add_paragraph p (set_cell_background new_cell ''9ACD32'') (Str ''Remediation:'') True 12
             None) (\<lambda>sol_cell.
     bind (cell_add_paragraph p sol_cell (solution v)) (\<lambda>c4.
     Inr [c0, c1, c2, c3, c4])))))))))"

text \<open>Lines 134 to 165: heading, table, page break.\<close>

definition render_vuln ::
  "runtime \<Rightarrow> nat \<Rightarrow> nat \<Rightarrow> nat \<Rightarrow> vuln \<Rightarrow> document \<Rightarrow> error + document" where
  "render_vuln p host_count i j v doc =
     bind (doc_add_paragraph p doc
             (''3.'' @ str_nat host_count @ ''.'' @ str_nat i @ ''.'' @ str_nat j @ '' ''
              @ fmt p (title v)) ''Heading 4'') (\<lambda>doc1.
     bind (vuln_table p v) (\<lambda>cells. Inr (doc1 @ [Table cells, PageBreak])))"

text \<open>The loop of line 133 over \<^verbatim>\<open>enumerate(vulns, start=1)\<close>.\<close>

fun render_vulns ::
  "runtime \<Rightarrow> nat \<Rightarrow> nat \<Rightarrow> (nat \<times> vuln) list \<Rightarrow> document \<Rightarrow> error + document" where
  "render_vulns p host_count i [] doc = Inr doc"
| "render_vulns p host_count i ((j, v) # rest) doc =
     bind (render_vuln p host_count i j v doc) (render_vulns p host_count i rest)"

text \<open>The loop of line 125 over \<^verbatim>\<open>enumerate(severity_order, start=1)\<close>.\<close>

fun render_severities ::
  "runtime \<Rightarrow> nat \<Rightarrow> severities \<Rightarrow> (nat \<times> string) list \<Rightarrow> document \<Rightarrow> error + document" where
  "render_severities p host_count sevs [] doc = Inr doc"
| "render_severities p host_count sevs ((i, severity) # rest) doc =
     (case map_of sevs (Str severity) of
        None \<Rightarrow> render_severities p host_count sevs rest doc
      | Some vulns \<Rightarrow>
          bind (doc_add_paragraph p doc
                  (''3.'' @ str_nat host_count @ ''.'' @ str_nat i @ '' '' @ capitalize severity
                   @ '' Vulnerabilities'') ''Heading 3'') (\<lambda>doc1.
          bind (render_vulns p host_count i (enumerate 1 vulns) doc1)
            (render_severities p host_count sevs rest)))"

text \<open>The loop of line 115 over \<^verbatim>\<open>grouped.items()\<close>. Only a string has \<^verbatim>\<open>replace\<close>: for any
  other host line 121 raises AttributeError.\<close>

fun render_hosts ::
  "runtime \<Rightarrow> env \<Rightarrow> row list \<Rightarrow> nat \<Rightarrow> grouped \<Rightarrow> document \<Rightarrow> string set
     \<Rightarrow> string set \<times> (error + document)" where
  "render_hosts p e df host_count [] doc fs = (fs, Inr doc)"
| "render_hosts p e df host_count ((host, sevs) # rest) doc fs =
     (let host_count = host_count + 1;
          host_df = filter (\<lambda>r. cell_eq (Host r) host) df
      in case doc_add_paragraph p doc (''3.'' @ str_nat host_count @ '' '' @ fmt p host)
                ''Heading 2'' of
           Inl err \<Rightarrow> (fs, Inl err)
         | Inr doc1 \<Rightarrow>
             (case host of
                Str h \<Rightarrow>
                  (case add_severity_chart e host_df doc1 (replace_dots h @ ''_chart.png'')
                          (h @ '' - Vulnerabilities by Severity'') fs of
                     (fs1, Inl err) \<Rightarrow> (fs1, Inl err)
                   | (fs1, Inr doc2) \<Rightarrow>
                       (case render_severities p host_count sevs (enumerate 1 severity_order)
                               doc2 of
                          Inl err \<Rightarrow> (fs1, Inl err)
                        | Inr doc3 \<Rightarrow> render_hosts p e df host_count rest doc3 fs1))
              | _ \<Rightarrow> (fs, Inl AttributeError)))"

text \<open>Lines 98 to 110: the page break after the template, the two fixed sections and the
  heading of the third. The chart of all rows stands between the first heading and the rest;
  \<open>front_rest\<close> is what follows it.\<close>

definition front_rest :: "runtime \<Rightarrow> document \<Rightarrow> error + document" where
  "front_rest p doc =
     bind (doc_add_paragraph p doc ''\<newline>'' ''Normal'') (\<lambda>doc1.
     bind (doc_add_paragraph p (doc1 @ [PageBreak]) ''2. Executive Summary'' ''Heading 1'') (\<lambda>doc2.
     bind (doc_add_paragraph p doc2 ''Add executive summary here...\<newline>'' ''Normal'') (\<lambda>doc3.
     doc_add_paragraph p (doc3 @ [PageBreak]) ''3. Vulnerabilities and Remediations''
       ''Heading 1'')))"

text \<open>Lines 79 to 167, from the table that line 79 has read to the document that line 167
  writes.\<close>

definition generate_report ::
  "runtime \<Rightarrow> env \<Rightarrow> row list \<Rightarrow> document \<Rightarrow> string set \<Rightarrow> string set \<times> (error + document)" where
  "generate_report p e df0 template fs =
     (case load_findings p df0 of
        Inl err \<Rightarrow> (fs, Inl err)
      | Inr df \<Rightarrow>
          (let grouped = group_findings (text_column (map Host df0)) df in
           case doc_add_paragraph p (template @ [PageBreak]) ''1. Statistics'' ''Heading 1'' of
             Inl err \<Rightarrow> (fs, Inl err)
           | Inr doc \<Rightarrow>
               (case add_severity_chart e df doc ''severity_chart.png''
                       ''Vulnerabilities by Severity'' fs of
                  (fs1, Inl err) \<Rightarrow> (fs1, Inl err)
                | (fs1, Inr doc1) \<Rightarrow>
                    (case front_rest p doc1 of
                       Inl err \<Rightarrow> (fs1, Inl err)
                     | Inr doc2 \<Rightarrow> render_hosts p e df 0 grouped doc2 fs1))))"

subsection \<open>The report as the specification describes it\<close>

text \<open>The definitions of this part follow the words of the specification, not the loops of
  the program. They are stated over the rows that are kept; the theorems compare them with
  what the program builds.\<close>

text \<open>A severity is excluded when it is missing, when it is empty, or when it is the word
  none in any mix of cases.\<close>

fun severity_excluded :: "runtime \<Rightarrow> cell \<Rightarrow> bool" where
  "severity_excluded p NaN = True"
| "severity_excluded p (Str s) = (s = [] \<or> rt_lower p s = ''none'')"
| "severity_excluded p (Other v) = False"

text \<open>The three severities of the charts and of the rendered groups.\<close>

definition charted :: "cell \<Rightarrow> bool" where
  "charted s = (s = Str ''CRITICAL'' \<or> s = Str ''MEDIUM'' \<or> s = Str ''LOW'')"

text \<open>The values of a list in the order in which each is seen first.\<close>

fun first_seen :: "'a list \<Rightarrow> 'a list" where
  "first_seen [] = []"
| "first_seen (x # xs) = x # filter (\<lambda>y. y \<noteq> x) (first_seen xs)"

text \<open>The kept rows of one host and one severity, in the order of the input.\<close>

definition rows_of :: "row list \<Rightarrow> cell \<Rightarrow> cell \<Rightarrow> row list" where
  "rows_of df h s = filter (\<lambda>r. Host r = h \<and> Risk r = s) df"

text \<open>All findings of a grouping, bucket after bucket.\<close>

definition all_vulns :: "grouped \<Rightarrow> vuln list" where
  "all_vulns g = concat (map (\<lambda>(h, sevs). concat (map snd sevs)) g)"

text \<open>The background colour of the title, by severity.\<close>

definition severity_rgb :: "string \<Rightarrow> string" where
  "severity_rgb sev =
     (if sev = ''CRITICAL'' then ''FF0000''
      else if sev = ''MEDIUM'' then ''FFA500''
      else if sev = ''LOW'' then ''FFFF00''
      else ''D3D3D3'')"

text \<open>The text that a field leaves in a finding block: the string itself; nothing for a value
  that is not a string.\<close>

fun shown :: "cell \<Rightarrow> string" where
  "shown (Str s) = s"
| "shown c = []"

definition plain_par :: "string \<Rightarrow> run list" where
  "plain_par s = (if s = [] then [] else [PlainRun s])"

text \<open>One finding: its heading, then the block (title on the severity colour, risk label,
  description, the fixed impact text, solution on the accent colour), then a page break.\<close>

definition block_cells :: "string \<Rightarrow> vuln \<Rightarrow> tcell list" where
  "block_cells sev v =
     [\<lparr>shd = [severity_rgb sev], pars = [[Run (shown (title v)) True 16 (Some ''FFFFFF'')]]\<rparr>,
      \<lparr>shd = [], pars = [[Run (''Risk: '' @ sev) True 12 None]]\<rparr>,
      \<lparr>shd = [], pars = [[Run ''Description:'' True 12 None], plain_par (shown (description v))]\<rparr>,
      \<lparr>shd = [],
       pars = [[Run ''Impact:'' True 12 None], [PlainRun ''Impact information not available.'']]\<rparr>,
      \<lparr>shd = [''9ACD32''],
       pars = [[Run ''Remediation:'' True 12 None], plain_par (shown (solution v))]\<rparr>]"

definition finding_block ::
  "runtime \<Rightarrow> nat \<Rightarrow> nat \<Rightarrow> nat \<Rightarrow> string \<Rightarrow> vuln \<Rightarrow> element list" where
  "finding_block p k i j sev v =
     [Paragraph (''3.'' @ str_nat k @ ''.'' @ str_nat i @ ''.'' @ str_nat j @ '' ''
                 @ fmt p (title v)) ''Heading 4'',
      Table (block_cells sev v),
      PageBreak]"

text \<open>The sub-heading of a severity.\<close>

definition severity_heading :: "nat \<Rightarrow> nat \<Rightarrow> string \<Rightarrow> string" where
  "severity_heading k i sev =
     ''3.'' @ str_nat k @ ''.'' @ str_nat i @ '' '' @ capitalize sev @ '' Vulnerabilities''"

text \<open>One severity of one host: the sub-heading, then the findings in the order of the
  input.\<close>

definition severity_section ::
  "runtime \<Rightarrow> row list \<Rightarrow> nat \<Rightarrow> cell \<Rightarrow> nat \<Rightarrow> string \<Rightarrow> element list" where
  "severity_section p df k h i sev =
     Paragraph (severity_heading k i sev) ''Heading 3''
     # concat (map (\<lambda>(j, r). finding_block p k i j sev (to_vuln r))
                (enumerate 1 (rows_of df h (Str sev))))"

text \<open>The severities that a host has, in the fixed order, each with its place in that order.\<close>

definition present :: "row list \<Rightarrow> cell \<Rightarrow> (nat \<times> string) list" where
  "present df h =
     filter (\<lambda>(i, sev). rows_of df h (Str sev) \<noteq> [])
       (enumerate 1 [''CRITICAL'', ''MEDIUM'', ''LOW''])"

text \<open>The heading of a host.\<close>

definition host_heading :: "runtime \<Rightarrow> nat \<Rightarrow> cell \<Rightarrow> string" where
  "host_heading p k h = ''3.'' @ str_nat k @ '' '' @ fmt p h"

text \<open>One host: the heading, the chart of the host, then the severities that the host has, in
  the fixed order.\<close>

definition host_section :: "runtime \<Rightarrow> row list \<Rightarrow> nat \<Rightarrow> cell \<Rightarrow> element list" where
  "host_section p df k h =
     [Paragraph (host_heading p k h) ''Heading 2'',
      Picture \<lparr>chart_title = fmt p h @ '' - Vulnerabilities by Severity'',
               bars = severity_counts (filter (\<lambda>r. Host r = h) df)\<rparr>]
     @ concat (map (\<lambda>(i, sev). severity_section p df k h i sev) (present df h))"

text \<open>The statistics section with the chart of all rows and the executive summary, each
  closed by a page break, and the heading of the third section.\<close>

definition front_matter :: "row list \<Rightarrow> element list" where
  "front_matter df =
     [PageBreak,
      Paragraph ''1. Statistics'' ''Heading 1'',
      Picture \<lparr>chart_title = ''Vulnerabilities by Severity'', bars = severity_counts df\<rparr>,
      Paragraph ''\<newline>'' ''Normal'',
      PageBreak,
      Paragraph ''2. Executive Summary'' ''Heading 1'',
      Paragraph ''Add executive summary here...\<newline>'' ''Normal'',
      PageBreak,
      Paragraph ''3. Vulnerabilities and Remediations'' ''Heading 1'']"

text \<open>The hosts in the order in which each is seen first among the kept rows, numbered
  from 1.\<close>

definition hosts_of :: "row list \<Rightarrow> (nat \<times> cell) list" where
  "hosts_of df = enumerate 1 (first_seen (map Host df))"

definition layout :: "runtime \<Rightarrow> row list \<Rightarrow> element list" where
  "layout p df =
     front_matter df @ concat (map (\<lambda>(k, h). host_section p df k h) (hosts_of df))"

text \<open>What a reader sees of a document: the texts of the paragraphs of one style and the
  tables.\<close>

fun headings :: "string \<Rightarrow> document \<Rightarrow> string list" where
  "headings st [] = []"
| "headings st (Paragraph t st' # d) = (if st' = st then t # headings st d else headings st d)"
| "headings st (x # d) = headings st d"

fun tables :: "document \<Rightarrow> tcell list list" where
  "tables [] = []"
| "tables (Table cs # d) = cs # tables d"
| "tables (x # d) = tables d"

subsection \<open>Inputs used as examples\<close>

text \<open>A runtime that treats every string as a string of ASCII characters, accepts every text
  and has every style.\<close>

definition plain_runtime :: runtime where
  "plain_runtime =
     \<lparr>rt_upper = map char_upper, rt_lower = map char_lower, rt_str = str_nat,
      rt_bool = (\<lambda>v. v \<noteq> 0), xml_ok = (\<lambda>s. True), has_style = (\<lambda>s. True)\<rparr>"

definition all_ok :: env where
  "all_ok = \<lparr>savefig_ok = (\<lambda>name. True), add_picture_ok = (\<lambda>name. True)\<rparr>"

definition embed_fails :: env where
  "embed_fails = \<lparr>savefig_ok = (\<lambda>name. True), add_picture_ok = (\<lambda>name. False)\<rparr>"

definition finding :: "string \<Rightarrow> string \<Rightarrow> string \<Rightarrow> string \<Rightarrow> string \<Rightarrow> row" where
  "finding h r n d s =
     \<lparr>Host = Str h, Risk = Str r, Name = Str n, Description = Str d, Solution = Str s\<rparr>"

text \<open>The scenario of the specification: two hosts, three severities; and the rows that are
  kept of it.\<close>

definition scenario :: "row list" where
  "scenario =
     [finding ''h1'' ''High'' ''A'' ''da'' ''sa'',
      finding ''h1'' ''Low'' ''B'' ''db'' ''sb'',
      finding ''h2'' ''Medium'' ''C'' ''dc'' ''sc'']"

definition scenario_kept :: "row list" where
  "scenario_kept =
     [finding ''h1'' ''CRITICAL'' ''A'' ''da'' ''sa'',
      finding ''h1'' ''LOW'' ''B'' ''db'' ''sb'',
      finding ''h2'' ''MEDIUM'' ''C'' ''dc'' ''sc'']"

text \<open>Four rows, two of which are dropped (the word none, a missing severity), and the rows
  that are kept of them.\<close>

definition mixed :: "row list" where
  "mixed =
     [finding ''h1'' ''High'' ''A'' ''da'' ''sa'',
      finding ''h1'' ''nOnE'' ''B'' ''db'' ''sb'',
      \<lparr>Host = Str ''h2'', Risk = NaN, Name = Str ''C'', Description = Str ''dc'', Solution = Str ''sc''\<rparr>,
      finding ''h2'' ''Medium'' ''D'' ''dd'' ''sd'']"

definition mixed_kept :: "row list" where
  "mixed_kept =
     [\<lparr>Host = Str ''h1'', Risk = Str ''CRITICAL'', Name = Str ''A'', Description = Str ''da'',
       Solution = Str ''sa''\<rparr>,
      \<lparr>Host = Str ''h2'', Risk = Str ''MEDIUM'', Name = Str ''D'', Description = Str ''dd'',
       Solution = Str ''sd''\<rparr>]"

text \<open>One finding of a severity outside the fixed set, and the row that is kept of it.\<close>

definition info_only :: "row list" where
  "info_only = [finding ''h1'' ''Info'' ''A'' ''da'' ''sa'']"

definition info_kept :: "row list" where
  "info_kept =
     [\<lparr>Host = Str ''h1'', Risk = Str ''INFO'', Name = Str ''A'', Description = Str ''da'',
       Solution = Str ''sa''\<rparr>]"

text \<open>Three kept rows of one host; the first and the third are in the same bucket.\<close>

definition twins_kept :: "row list" where
  "twins_kept =
     [finding ''h1'' ''CRITICAL'' ''A'' ''da'' ''sa'',
      finding ''h1'' ''LOW'' ''B'' ''db'' ''sb'',
      finding ''h1'' ''CRITICAL'' ''C'' ''dc'' ''sc'']"

text \<open>One finding whose Name is missing.\<close>

definition nameless :: "row list" where
  "nameless = [\<lparr>Host = Str ''h1'', Risk = Str ''High'', Name = NaN, Description = Str ''da'',
       Solution = Str ''sa''\<rparr>]"

section \<open>Properties\<close>

subsection \<open>Letters\<close>

lemma of_char_upper:
  "(of_char (char_upper c) :: nat) =
     (if 97 \<le> (of_char c :: nat) \<and> (of_char c :: nat) \<le> 122 then of_char c - 32 else of_char c)"
  by (auto simp: char_upper_def Let_def intro!: mod_less)

lemma of_char_lower:
  "(of_char (char_lower c) :: nat) =
     (if 65 \<le> (of_char c :: nat) \<and> (of_char c :: nat) \<le> 90 then of_char c + 32 else of_char c)"
  by (simp add: char_lower_def Let_def)

lemma upper_H_lower_n: "char_upper c = CHR ''H'' \<Longrightarrow> char_lower c \<noteq> CHR ''n''"
proof
  assume u: "char_upper c = CHR ''H''" and l: "char_lower c = CHR ''n''"
  have "(of_char (char_upper c) :: nat) = 72" by (simp add: u)
  moreover have "(of_char (char_lower c) :: nat) = 110" by (simp add: l)
  ultimately show False
    by (simp add: of_char_upper of_char_lower split: if_splits)
qed

lemma map_upper_high_not_none: "map char_upper s = ''HIGH'' \<Longrightarrow> map char_lower s \<noteq> ''none''"
proof
  assume u: "map char_upper s = ''HIGH''" and l: "map char_lower s = ''none''"
  from u obtain c cs where s: "s = c # cs" and "char_upper c = CHR ''H''"
    by (cases s) auto
  moreover from l s have "char_lower c = CHR ''n''"
    by simp
  ultimately show False using upper_H_lower_n by blast
qed

lemma ascii_lower: "ascii (map char_lower s) \<Longrightarrow> ascii s"
proof (induction s)
  case Nil
  then show ?case by simp
next
  case (Cons c s)
  from Cons.prems have "(of_char (char_lower c) :: nat) < 128" and "ascii (map char_lower s)"
    by (simp_all add: ascii_def)
  then have "(of_char c :: nat) < 128" and "ascii s"
    using Cons.IH by (simp_all add: of_char_lower split: if_splits)
  then show ?case by (simp add: ascii_def)
qed

lemma python_case_plain: "python_case plain_runtime"
proof -
  have "ascii s" if "map char_lower s = ''none''" for s
  proof -
    have "ascii ''none''" by (simp add: ascii_def)
    with that show ?thesis by (simp add: ascii_lower)
  qed
  then show ?thesis
    by (simp add: python_case_def plain_runtime_def)
qed

lemma upper_high_not_none:
  assumes "python_case p" and "rt_upper p s = ''HIGH''"
  shows "rt_lower p s \<noteq> ''none''"
proof
  assume l: "rt_lower p s = ''none''"
  with assms(1) have a: "ascii s" by (simp add: python_case_def)
  with assms(1) have "rt_upper p s = map char_upper s" and "rt_lower p s = map char_lower s"
    by (simp_all add: python_case_def)
  with assms(2) l show False using map_upper_high_not_none by metis
qed

lemma upper_order:
  assumes "python_case p" and "sev \<in> set severity_order"
  shows "rt_upper p sev = sev"
proof -
  from assms(2) have a: "ascii sev"
    by (auto simp: severity_order_def ascii_def)
  from assms(2) have "map char_upper sev = sev"
    by (auto simp: severity_order_def char_upper_def)
  with assms(1) a show ?thesis by (simp add: python_case_def)
qed

subsection \<open>Filtering\<close>

lemma dropped_simps [simp]:
  "dropped p NaN = True"
  "dropped p (Str s) = (rt_lower p s = ''none'')"
  "dropped p (Other v) = False"
  by (simp_all add: dropped_def notna_def)

lemma kept_row_iff:
  "(notna c \<and> \<not> cell_eq (cell_lower p c) (Str ''none'')) = (\<not> dropped p c)"
  by (simp add: dropped_def)

lemma dropped_excluded: "c \<noteq> Str [] \<Longrightarrow> dropped p c = severity_excluded p c"
  by (cases c) simp_all

lemma kept_rows_excluded:
  assumes "loaded_column (map Risk df0)"
  shows "kept_rows p df0
           = map (normalize_row p) (filter (\<lambda>r. \<not> severity_excluded p (Risk r)) df0)"
proof -
  have "dropped p (Risk r) = severity_excluded p (Risk r)" if "r \<in> set df0" for r
  proof (rule dropped_excluded)
    from assms have "\<forall>c \<in> set (map Risk df0). c \<noteq> Str []"
      by (simp only: loaded_column_def list_ex_iff) blast
    with that show "Risk r \<noteq> Str []"
      by (metis image_eqI list.set_map)
  qed
  then have "filter (\<lambda>r. \<not> dropped p (Risk r)) df0
        = filter (\<lambda>r. \<not> severity_excluded p (Risk r)) df0"
    by (intro filter_cong refl) simp
  then show ?thesis by (simp add: kept_rows_def)
qed

lemma load_findings_text:
  assumes "text_column (map Risk df0)"
  shows "load_findings p df0 =
           Inr (map (normalize_row p) (filter (\<lambda>r. \<not> dropped p (Risk r)) df0))"
proof -
  have "filter (\<lambda>r. \<not> cell_eq (cell_lower p (Risk r)) (Str ''none''))
          (filter (\<lambda>r. notna (Risk r)) df0)
        = filter (\<lambda>r. \<not> dropped p (Risk r)) df0"
    by (simp add: kept_row_iff [symmetric] conj_commute)
  with assms show ?thesis
    by (simp add: load_findings_def Let_def)
qed

lemma load_findings_not_text:
  "\<not> text_column (map Risk df0) \<Longrightarrow> load_findings p df0 = Inl AttributeError"
  by (simp add: load_findings_def Let_def)

lemma load_findings_Inr:
  assumes "load_findings p df0 = Inr df"
  shows "text_column (map Risk df0)
       \<and> df = map (normalize_row p) (filter (\<lambda>r. \<not> dropped p (Risk r)) df0)"
proof (cases "text_column (map Risk df0)")
  case True
  with assms load_findings_text [OF True, of p] show ?thesis by simp
next
  case False
  with assms load_findings_not_text [OF False, of p] show ?thesis by simp
qed

lemma text_column_mem: "r \<in> set df0 \<Longrightarrow> Risk r = Str s \<Longrightarrow> text_column (map Risk df0)"
  by (auto simp: text_column_def list_ex_iff intro!: bexI [of _ r])
subsection \<open>Grouping\<close>

lemma map_of_dd_update:
  "map_of (dd_update k d f kvs) k' =
     (if k' = k then Some (f (case map_of kvs k of None \<Rightarrow> d | Some v \<Rightarrow> v)) else map_of kvs k')"
  by (induction kvs) auto

lemma keys_dd_update_old: "k \<in> set (map fst kvs) \<Longrightarrow> map fst (dd_update k d f kvs) = map fst kvs"
  by (induction kvs) force+

lemma keys_dd_update_new:
  "k \<notin> set (map fst kvs) \<Longrightarrow> map fst (dd_update k d f kvs) = map fst kvs @ [k]"
  by (induction kvs) auto

lemma first_seen_set [simp]: "set (first_seen xs) = set xs"
  by (induction xs) auto

lemma first_seen_distinct [simp]: "distinct (first_seen xs)"
  by (induction xs) auto

lemma first_seen_snoc:
  "first_seen (xs @ [x]) = (if x \<in> set xs then first_seen xs else first_seen xs @ [x])"
  by (induction xs) auto

text \<open>With shared missing hosts, or without any missing host, the grouping is the plain
  insertion into the dictionary.\<close>

lemma group_row_plain: "shared \<or> Host r \<noteq> NaN \<Longrightarrow> group_row shared g r = group_row True g r"
  by (auto simp: group_row_def)

lemma group_findings_plain:
  "shared \<or> (\<forall>r \<in> set df. Host r \<noteq> NaN) \<Longrightarrow> group_findings shared df = group_findings True df"
  unfolding group_findings_def
proof (induction df rule: rev_induct)
  case Nil
  show ?case by simp
next
  case (snoc r df)
  then have "foldl (group_row shared) [] df = foldl (group_row True) [] df"
    by auto
  moreover from snoc.prems have "group_row shared g r = group_row True g r" for g
    by (intro group_row_plain) auto
  ultimately show ?case by simp
qed

lemma keys_group_row:
  "map fst (group_row True g r) =
     (if Host r \<in> set (map fst g) then map fst g else map fst g @ [Host r])"
  by (simp add: group_row_def keys_dd_update_old keys_dd_update_new)

lemma keys_group_findings: "map fst (group_findings True df) = first_seen (map Host df)"
  unfolding group_findings_def
proof (induction df rule: rev_induct)
  case Nil
  show ?case by simp
next
  case (snoc r df)
  have "set (map fst (foldl (group_row True) [] df)) = set (map Host df)"
    by (simp only: snoc.IH first_seen_set)
  then show ?case
    by (simp add: keys_group_row snoc.IH first_seen_snoc del: set_map)
qed

lemma key_set_group_row: "fst ` set (group_row shared g r) = insert (Host r) (fst ` set g)"
proof (cases "Host r = NaN \<and> \<not> shared")
  case True
  then show ?thesis by (simp add: group_row_def)
next
  case False
  then have "group_row shared g r = group_row True g r"
    by (intro group_row_plain) auto
  moreover have "set (map fst (group_row True g r)) = insert (Host r) (set (map fst g))"
    by (auto simp: keys_group_row simp del: set_map)
  ultimately show ?thesis by simp
qed

lemma key_set_group_findings: "fst ` set (group_findings shared df) = Host ` set df"
  unfolding group_findings_def
proof (induction df rule: rev_induct)
  case Nil
  show ?case by simp
next
  case (snoc r df)
  then show ?case by (simp add: key_set_group_row)
qed

lemma sev_lookup_Nil: "sev_lookup [] h s = None"
  by (simp add: sev_lookup_def)

lemma sev_lookup_group_row:
  "sev_lookup (group_row True g r) h s =
     (if Host r = h \<and> Risk r = s
      then Some ((case sev_lookup g h s of None \<Rightarrow> [] | Some vs \<Rightarrow> vs) @ [to_vuln r])
      else sev_lookup g h s)"
  by (auto simp: sev_lookup_def group_row_def map_of_dd_update split: option.splits)

lemma rows_of_snoc:
  "rows_of (df @ [r]) h s = rows_of df h s @ (if Host r = h \<and> Risk r = s then [r] else [])"
  by (simp add: rows_of_def)

lemma sev_lookup_group_findings:
  "sev_lookup (group_findings True df) h s =
     (if rows_of df h s = [] then None else Some (map to_vuln (rows_of df h s)))"
  unfolding group_findings_def
proof (induction df rule: rev_induct)
  case Nil
  show ?case by (simp add: sev_lookup_Nil rows_of_def)
next
  case (snoc r df)
  show ?case
    by (simp add: sev_lookup_group_row rows_of_snoc snoc.IH)
qed

lemma bucket_eq: "bucket g h s = (case sev_lookup g h s of None \<Rightarrow> [] | Some vs \<Rightarrow> vs)"
  by (simp add: bucket_def sev_lookup_def split: option.splits)

lemma bucket_group_findings: "bucket (group_findings True df) h s = map to_vuln (rows_of df h s)"
  by (simp add: bucket_eq sev_lookup_group_findings)

lemma group_findings_lookup:
  "\<forall>hv \<in> set (group_findings True df).
     map_of (snd hv) = sev_lookup (group_findings True df) (fst hv)"
proof
  fix hv assume m: "hv \<in> set (group_findings True df)"
  have "distinct (map fst (group_findings True df))"
    by (simp add: keys_group_findings)
  with m have "map_of (group_findings True df) (fst hv) = Some (snd hv)"
    by simp
  then show "map_of (snd hv) = sev_lookup (group_findings True df) (fst hv)"
    by (simp add: sev_lookup_def fun_eq_iff)
qed

subsection \<open>Where a finding is stored\<close>

lemma stored_iff:
  "stored g h s v = (\<exists>sevs vs. (h, sevs) \<in> set g \<and> (s, vs) \<in> set sevs \<and> v \<in> set vs)"
  by (auto simp: stored_def list_ex_iff)

lemma dd_update_mem:
  "(k, v) \<in> set kvs \<Longrightarrow> (k, v) \<in> set (dd_update k' d f kvs) \<or> (k, f v) \<in> set (dd_update k' d f kvs)"
  by (induction kvs) auto

lemma dd_update_new_mem: "\<exists>v. (k, f v) \<in> set (dd_update k d f kvs)"
  by (induction kvs) auto

lemma sevs_update_keeps:
  assumes "(s, vs) \<in> set sevs" and "v \<in> set vs"
  shows "\<exists>vs'. (s, vs') \<in> set (dd_update s' [] (\<lambda>vs. vs @ [x]) sevs) \<and> v \<in> set vs'"
  using dd_update_mem [OF assms(1), of s' "[]" "\<lambda>vs. vs @ [x]"] assms(2) by auto

lemma sevs_update_adds:
  "\<exists>vs'. (s, vs') \<in> set (dd_update s [] (\<lambda>vs. vs @ [x]) sevs) \<and> x \<in> set vs'"
  using dd_update_new_mem [of s "\<lambda>vs. vs @ [x]" "[]" sevs] by auto

lemma stored_group_row_keeps:
  assumes "stored g h s v"
  shows "stored (group_row shared g r) h s v"
proof -
  from assms obtain sevs vs where m: "(h, sevs) \<in> set g" "(s, vs) \<in> set sevs" "v \<in> set vs"
    by (auto simp: stored_iff)
  show ?thesis
  proof (cases "Host r = NaN \<and> \<not> shared")
    case True
    with m show ?thesis by (auto simp: stored_iff group_row_def)
  next
    case False
    let ?f = "dd_update (Risk r) [] (\<lambda>vs. vs @ [to_vuln r])"
    from dd_update_mem [OF m(1), of "Host r" "[]" ?f]
    have "(h, sevs) \<in> set (group_row shared g r) \<or> (h, ?f sevs) \<in> set (group_row shared g r)"
      using False by (auto simp: group_row_def)
    moreover from sevs_update_keeps [OF m(2,3)] obtain vs' where
      "(s, vs') \<in> set (?f sevs)" "v \<in> set vs'" by blast
    ultimately show ?thesis using m by (auto simp: stored_iff)
  qed
qed

lemma stored_group_row_adds: "stored (group_row shared g r) (Host r) (Risk r) (to_vuln r)"
proof (cases "Host r = NaN \<and> \<not> shared")
  case True
  then show ?thesis by (auto simp: stored_iff group_row_def)
next
  case False
  let ?f = "dd_update (Risk r) [] (\<lambda>vs. vs @ [to_vuln r])"
  from dd_update_new_mem [of "Host r" ?f "[]" g] obtain sevs where
    "(Host r, ?f sevs) \<in> set (group_row shared g r)"
    using False by (auto simp: group_row_def)
  moreover from sevs_update_adds [of "Risk r" "to_vuln r" sevs] obtain vs' where
    "(Risk r, vs') \<in> set (?f sevs)" "to_vuln r \<in> set vs'" by blast
  ultimately show ?thesis by (auto simp: stored_iff)
qed

lemma stored_group_findings:
  "r \<in> set df \<Longrightarrow> stored (group_findings shared df) (Host r) (Risk r) (to_vuln r)"
  unfolding group_findings_def
proof (induction df rule: rev_induct)
  case Nil
  then show ?case by simp
next
  case (snoc x df)
  show ?case
  proof (cases "r = x")
    case True
    then show ?thesis by (simp add: stored_group_row_adds)
  next
    case False
    with snoc have "stored (foldl (group_row shared) [] df) (Host r) (Risk r) (to_vuln r)"
      by simp
    then show ?thesis by (simp add: stored_group_row_keeps)
  qed
qed

subsection \<open>All findings of the grouping\<close>

lemma mset_sevs_update:
  "mset (concat (map snd (dd_update s [] (\<lambda>vs. vs @ [v]) sevs))) =
     mset (concat (map snd sevs)) + {#v#}"
  by (induction sevs) auto

lemma mset_all_vulns_dd:
  "mset (all_vulns (dd_update h [] (dd_update s [] (\<lambda>vs. vs @ [v])) g)) = mset (all_vulns g) + {#v#}"
  unfolding all_vulns_def
  by (induction g) (auto simp: mset_sevs_update)

lemma mset_all_vulns_group_row:
  "mset (all_vulns (group_row shared g r)) = mset (all_vulns g) + {#to_vuln r#}"
proof (cases "Host r = NaN \<and> \<not> shared")
  case True
  then show ?thesis by (simp add: group_row_def all_vulns_def)
next
  case False
  then show ?thesis by (auto simp: group_row_def mset_all_vulns_dd)
qed

lemma mset_all_vulns: "mset (all_vulns (group_findings shared df)) = mset (map to_vuln df)"
  unfolding group_findings_def
proof (induction df rule: rev_induct)
  case Nil
  show ?case by (simp add: all_vulns_def)
next
  case (snoc r df)
  then show ?case by (simp add: mset_all_vulns_group_row)
qed

subsection \<open>Chart counts\<close>

lemma count_list_filter: "count_list (filter P xs) v = (if P v then count_list xs v else 0)"
  by (induction xs) auto

lemma map_of_value_counts:
  "map_of (value_counts col) v =
     (if v \<in> set col \<and> v \<noteq> NaN then Some (count_list col v) else None)"
  by (auto simp: value_counts_def Let_def map_of_map_restrict restrict_map_def count_list_filter
      notna_def)

lemma reindex_value_counts:
  "(case map_of (value_counts (map Risk df)) (Str k) of None \<Rightarrow> 0 | Some n \<Rightarrow> n)
     = length (filter (\<lambda>r. Risk r = Str k) df)"
proof -
  have "count_list (map Risk df) (Str k) = length (filter (\<lambda>r. Risk r = Str k) df)"
    by (induction df) auto
  moreover have "Str k \<notin> set (map Risk df) \<Longrightarrow> length (filter (\<lambda>r. Risk r = Str k) df) = 0"
    by (induction df) auto
  ultimately show ?thesis
    by (simp add: map_of_value_counts del: set_map)
qed

lemma severity_counts_eq:
  "severity_counts df =
     map (\<lambda>c. (c, length (filter (\<lambda>r. Risk r = Str c) df))) [''CRITICAL'', ''MEDIUM'', ''LOW'']"
  by (simp only: severity_counts_def reindex_def reindex_value_counts)

lemma severity_counts_sum:
  "sum_list (map snd (severity_counts df)) =
     length (filter (\<lambda>r. Risk r \<in> Str ` set severity_order) df)"
  unfolding severity_counts_eq severity_order_def
  by (induction df) auto

subsection \<open>Rendering one finding\<close>

lemma bind_Inr [simp]: "bind (Inr a) f = f a"
  by (simp add: bind_def)

lemma bind_Inl [simp]: "bind (Inl e) f = Inl e"
  by (simp add: bind_def)

lemma bind_eq_Inr: "(bind m f = Inr b) = (\<exists>a. m = Inr a \<and> f a = Inr b)"
  by (cases m) simp_all

lemma add_run_Inr: "add_run p c = Inr t \<Longrightarrow> c \<noteq> NaN \<and> t = shown c"
  by (cases c) (simp_all split: if_splits)

lemma doc_add_paragraph_Inr:
  "doc_add_paragraph p doc s st = Inr d \<Longrightarrow> d = doc @ [Paragraph s st]"
  by (auto simp: doc_add_paragraph_def bind_eq_Inr split: if_splits)

lemma add_paragraph_Inr:
  assumes "add_paragraph p c t b n col = Inr c'" and "pars c = [[]]"
  shows "t \<noteq> NaN \<and> c' = \<lparr>shd = shd c, pars = [[Run (shown t) b n col]]\<rparr>"
proof -
  from assms(1) obtain s where s: "add_run p t = Inr s"
    and c': "c' = c\<lparr>pars := [[Run s b n col]]\<rparr>"
    by (auto simp: add_paragraph_def bind_eq_Inr assms(2))
  from add_run_Inr [OF s] c' show ?thesis by simp
qed

lemma cell_add_paragraph_Inr:
  assumes "cell_add_paragraph p c t = Inr c'"
  shows "t \<noteq> NaN \<and> c' = \<lparr>shd = shd c, pars = pars c @ [plain_par (shown t)]\<rparr>"
proof -
  from assms obtain s where s: "add_run p t = Inr s"
    and c': "c' = c\<lparr>pars := pars c @ [if s = [] then [] else [PlainRun s]]\<rparr>"
    by (auto simp: cell_add_paragraph_def bind_eq_Inr)
  from add_run_Inr [OF s] c' show ?thesis by (simp add: plain_par_def)
qed

lemma get_severity_color_order:
  assumes "python_case p" and "sev \<in> set severity_order"
  shows "get_severity_color p (Str sev) = Inr (severity_rgb sev)"
proof -
  have "rt_upper p sev = sev" by (rule upper_order [OF assms])
  with assms(2) show ?thesis
    by (auto simp: severity_order_def severity_rgb_def)
qed

lemma vuln_table_fields:
  assumes "vuln_table p v = Inr cells"
  shows "\<exists>rgb. get_severity_color p (risk v) = Inr rgb
       \<and> title v \<noteq> NaN \<and> description v \<noteq> NaN \<and> solution v \<noteq> NaN
       \<and> cells =
           [\<lparr>shd = [rgb], pars = [[Run (shown (title v)) True 16 (Some ''FFFFFF'')]]\<rparr>,
            \<lparr>shd = [], pars = [[Run (''Risk: '' @ fmt p (risk v)) True 12 None]]\<rparr>,
            \<lparr>shd = [],
             pars = [[Run ''Description:'' True 12 None], plain_par (shown (description v))]\<rparr>,
            \<lparr>shd = [],
             pars = [[Run ''Impact:'' True 12 None],
                     [PlainRun ''Impact information not available.'']]\<rparr>,
            \<lparr>shd = [''9ACD32''],
             pars = [[Run ''Remediation:'' True 12 None], plain_par (shown (solution v))]\<rparr>]"
proof -
  from assms obtain rgb c0 c1 dc c2 ic c3 sc c4 where
    rgb: "get_severity_color p (risk v) = Inr rgb" and
    c0: "add_paragraph p (set_cell_background new_cell rgb) (title v) True 16 (Some ''FFFFFF'')
           = Inr c0" and
    c1: "add_paragraph p new_cell (Str (''Risk: '' @ fmt p (risk v))) True 12 None = Inr c1" and
    dc: "add_paragraph p new_cell (Str ''Description:'') True 12 None = Inr dc" and
    c2: "cell_add_paragraph p dc (description v) = Inr c2" and
    ic: "add_paragraph p new_cell (Str ''Impact:'') True 12 None = Inr ic" and
    c3: "cell_add_paragraph p ic (Str ''Impact information not available.'') = Inr c3" and
    sc: "add_paragraph p (set_cell_background new_cell ''9ACD32'') (Str ''Remediation:'') True 12
           None = Inr sc" and
    c4: "cell_add_paragraph p sc (solution v) = Inr c4" and
    cells: "cells = [c0, c1, c2, c3, c4]"
    unfolding vuln_table_def bind_eq_Inr by blast
  have n: "pars new_cell = [[]]" "shd new_cell = []"
    and b: "pars (set_cell_background new_cell x) = [[]]"
           "shd (set_cell_background new_cell x) = [x]" for x
    by (simp_all add: new_cell_def set_cell_background_def)
  note a0 = add_paragraph_Inr [OF c0 b(1)]
  note a1 = add_paragraph_Inr [OF c1 n(1)]
  note ad = add_paragraph_Inr [OF dc n(1)]
  note a2 = cell_add_paragraph_Inr [OF c2]
  note ai = add_paragraph_Inr [OF ic n(1)]
  note a3 = cell_add_paragraph_Inr [OF c3]
  note as = add_paragraph_Inr [OF sc b(1)]
  note a4 = cell_add_paragraph_Inr [OF c4]
  from a0 a1 ad a2 ai a3 as a4 rgb cells show ?thesis
    by (simp add: n b plain_par_def)
qed

lemma vuln_table_Inr:
  assumes "vuln_table p v = Inr cells" and "risk v = Str sev" and "sev \<in> set severity_order"
    and "python_case p"
  shows "title v \<noteq> NaN \<and> description v \<noteq> NaN \<and> solution v \<noteq> NaN
       \<and> cells = block_cells sev v"
  using vuln_table_fields [OF assms(1)] get_severity_color_order [OF assms(4,3)]
  by (auto simp: assms(2) block_cells_def)

lemma render_vuln_fields:
  assumes "render_vuln p k i j v doc = Inr d"
  shows "title v \<noteq> NaN \<and> description v \<noteq> NaN \<and> solution v \<noteq> NaN"
proof -
  from assms obtain cells where "vuln_table p v = Inr cells"
    unfolding render_vuln_def bind_eq_Inr by blast
  from vuln_table_fields [OF this] show ?thesis by blast
qed

lemma render_vuln_Inr:
  assumes "render_vuln p k i j v doc = Inr d" and "risk v = Str sev"
    and "sev \<in> set severity_order" and "python_case p"
  shows "d = doc @ finding_block p k i j sev v"
proof -
  from assms(1) obtain d1 cells where h: "doc_add_paragraph p doc
       (''3.'' @ str_nat k @ ''.'' @ str_nat i @ ''.'' @ str_nat j @ '' '' @ fmt p (title v))
       ''Heading 4'' = Inr d1"
    and c: "vuln_table p v = Inr cells"
    and d: "d = d1 @ [Table cells, PageBreak]"
    unfolding render_vuln_def bind_eq_Inr by auto
  from doc_add_paragraph_Inr [OF h] vuln_table_Inr [OF c assms(2,3,4)] d show ?thesis
    by (simp add: finding_block_def)
qed

subsection \<open>Rendering the findings of a severity\<close>

lemma render_vulns_Inr:
  assumes "render_vulns p k i jvs doc = Inr d"
    and "\<forall>jv \<in> set jvs. risk (snd jv) = Str sev" and "sev \<in> set severity_order"
    and "python_case p"
  shows "d = doc @ concat (map (\<lambda>(j, v). finding_block p k i j sev v) jvs)
       \<and> (\<forall>jv \<in> set jvs. title (snd jv) \<noteq> NaN \<and> description (snd jv) \<noteq> NaN
                            \<and> solution (snd jv) \<noteq> NaN)"
  using assms(1,2)
proof (induction jvs arbitrary: doc)
  case Nil
  then show ?case by simp
next
  case (Cons jv jvs)
  obtain j v where jv: "jv = (j, v)" by (cases jv)
  from Cons.prems(1) jv obtain d1 where 1: "render_vuln p k i j v doc = Inr d1"
    and 2: "render_vulns p k i jvs d1 = Inr d"
    by (auto simp: bind_eq_Inr)
  from Cons.prems(2) jv have rv: "risk v = Str sev" by simp
  from Cons.prems(2) have rest: "\<forall>jv \<in> set jvs. risk (snd jv) = Str sev" by simp
  note a = render_vuln_Inr [OF 1 rv assms(3,4)]
  note f = render_vuln_fields [OF 1]
  note b = Cons.IH [OF 2 rest]
  from a f b jv show ?case by simp
qed

lemma enumerate_map: "enumerate n (map f xs) = map (\<lambda>(j, x). (j, f x)) (enumerate n xs)"
  by (induction xs arbitrary: n) simp_all

lemma snd_set_enumerate: "snd ` set (enumerate n xs) = set xs"
  by (metis map_snd_enumerate set_map)

lemma enumerate_sndD: "jv \<in> set (enumerate n xs) \<Longrightarrow> snd jv \<in> set xs"
  using snd_set_enumerate [of n xs] by auto

lemma enumerate_sndE: "x \<in> set xs \<Longrightarrow> \<exists>jv \<in> set (enumerate n xs). snd jv = x"
proof -
  assume "x \<in> set xs"
  then have "x \<in> snd ` set (enumerate n xs)"
    by (simp only: snd_set_enumerate)
  then show ?thesis by (auto simp: image_iff)
qed

subsection \<open>Rendering the severities of a host\<close>

lemma render_severities_Inr:
  assumes "render_severities p k sevs ivs doc = Inr d"
    and "map_of sevs = sev_lookup (group_findings True df) h"
    and "snd ` set ivs \<subseteq> set severity_order"
    and "python_case p"
  shows "d = doc @ concat (map (\<lambda>(i, sev). severity_section p df k h i sev)
                        (filter (\<lambda>(i, sev). rows_of df h (Str sev) \<noteq> []) ivs))
       \<and> (\<forall>iv \<in> set ivs. \<forall>r \<in> set (rows_of df h (Str (snd iv))).
             Name r \<noteq> NaN \<and> Description r \<noteq> NaN \<and> Solution r \<noteq> NaN)"
  using assms(1,3)
proof (induction ivs arbitrary: doc)
  case Nil
  then show ?case by simp
next
  case (Cons iv ivs)
  obtain i sev where iv: "iv = (i, sev)" by (cases iv)
  from Cons.prems(2) iv have sev: "sev \<in> set severity_order" and
    rest: "snd ` set ivs \<subseteq> set severity_order" by auto
  have look: "map_of sevs (Str sev) =
      (if rows_of df h (Str sev) = [] then None else Some (map to_vuln (rows_of df h (Str sev))))"
    by (simp add: assms(2) sev_lookup_group_findings)
  show ?case
  proof (cases "rows_of df h (Str sev) = []")
    case True
    with Cons.prems(1) iv look have "render_severities p k sevs ivs doc = Inr d" by simp
    from Cons.IH [OF this rest] True iv show ?thesis by simp
  next
    case False
    let ?jvs = "enumerate 1 (map to_vuln (rows_of df h (Str sev)))"
    from Cons.prems(1) iv look False
    have "bind (doc_add_paragraph p doc
                  (''3.'' @ str_nat k @ ''.'' @ str_nat i @ '' '' @ capitalize sev
                   @ '' Vulnerabilities'') ''Heading 3'') (\<lambda>doc1.
          bind (render_vulns p k i ?jvs doc1) (render_severities p k sevs ivs)) = Inr d"
      by simp
    then obtain d0 d1 where
      0: "doc_add_paragraph p doc (severity_heading k i sev) ''Heading 3'' = Inr d0" and
      1: "render_vulns p k i ?jvs d0 = Inr d1" and
      2: "render_severities p k sevs ivs d1 = Inr d"
      unfolding bind_eq_Inr severity_heading_def by auto
    have "\<forall>v \<in> set (map to_vuln (rows_of df h (Str sev))). risk v = Str sev"
      by (auto simp: rows_of_def to_vuln_def)
    then have risks: "\<forall>jv \<in> set ?jvs. risk (snd jv) = Str sev"
      by (blast dest: enumerate_sndD)
    note a = render_vulns_Inr [OF 1 risks sev assms(4)]
    note b = Cons.IH [OF 2 rest]
    have sec: "d1 = doc @ severity_section p df k h i sev"
      using a doc_add_paragraph_Inr [OF 0]
      by (simp add: severity_section_def enumerate_map map_map o_def split_def)
    from a have "\<forall>v \<in> set (map to_vuln (rows_of df h (Str sev))).
        title v \<noteq> NaN \<and> description v \<noteq> NaN \<and> solution v \<noteq> NaN"
      by (metis enumerate_sndE)
    then have fields: "\<forall>r \<in> set (rows_of df h (Str sev)).
        Name r \<noteq> NaN \<and> Description r \<noteq> NaN \<and> Solution r \<noteq> NaN"
      by (simp add: to_vuln_def)
    from b sec fields False iv show ?thesis by simp
  qed
qed

subsection \<open>Rendering the hosts\<close>

lemma add_severity_chart_Inr:
  "add_severity_chart e df doc chart_name ttl fs = (fs1, Inr d) \<Longrightarrow>
   d = doc @ [Picture \<lparr>chart_title = ttl, bars = severity_counts df\<rparr>]"
  by (simp add: add_severity_chart_def Let_def split: if_splits)

lemma cell_eq_Str: "cell_eq c (Str h) = (c = Str h)"
  by (cases c) auto

text \<open>What one round of the loop over the hosts does when the whole loop succeeds.\<close>

lemma render_hosts_step:
  assumes "render_hosts p e df n ((host, sevs) # rest) doc fs = (fs', Inr d)"
  shows "\<exists>h d1 d2 d3 fs1. host = Str h
       \<and> doc_add_paragraph p doc (host_heading p (Suc n) host) ''Heading 2'' = Inr d1
       \<and> add_severity_chart e (filter (\<lambda>r. Host r = Str h) df) d1 (replace_dots h @ ''_chart.png'')
            (h @ '' - Vulnerabilities by Severity'') fs = (fs1, Inr d2)
       \<and> render_severities p (Suc n) sevs (enumerate 1 severity_order) d2 = Inr d3
       \<and> render_hosts p e df (Suc n) rest d3 fs1 = (fs', Inr d)"
proof -
  let ?hd = "doc_add_paragraph p doc (host_heading p (Suc n) host) ''Heading 2''"
  from assms obtain d1 where d1: "?hd = Inr d1"
    by (cases ?hd) (simp_all add: Let_def host_heading_def)
  from assms d1 obtain h where h: "host = Str h"
    by (cases host) (simp_all add: Let_def host_heading_def)
  let ?chart = "add_severity_chart e (filter (\<lambda>r. Host r = Str h) df) d1
                  (replace_dots h @ ''_chart.png'') (h @ '' - Vulnerabilities by Severity'') fs"
  obtain fs1 res where c: "?chart = (fs1, res)" by (cases ?chart)
  from assms d1 h c obtain d2 where res: "res = Inr d2"
    by (cases res) (simp_all add: Let_def host_heading_def cell_eq_Str)
  let ?sev = "render_severities p (Suc n) sevs (enumerate 1 severity_order) d2"
  from assms d1 h c res obtain d3 where s: "?sev = Inr d3"
    by (cases ?sev) (simp_all add: Let_def host_heading_def cell_eq_Str)
  from assms d1 h c res s have "render_hosts p e df (Suc n) rest d3 fs1 = (fs', Inr d)"
    by (simp add: Let_def host_heading_def cell_eq_Str)
  with h d1 c res s show ?thesis by blast
qed

lemma render_hosts_keys:
  assumes "render_hosts p e df n hs doc fs = (fs', Inr d)"
  shows "\<forall>hv \<in> set hs. is_str (fst hv)"
  using assms
proof (induction hs arbitrary: n doc fs)
  case Nil
  then show ?case by simp
next
  case (Cons hv hs)
  obtain host sevs where hv: "hv = (host, sevs)" by (cases hv)
  from render_hosts_step [OF Cons.prems [unfolded hv]] obtain h d3 fs1 where
    "host = Str h" "render_hosts p e df (Suc n) hs d3 fs1 = (fs', Inr d)" by blast
  with Cons.IH hv show ?case by simp
qed

lemma render_hosts_Inr:
  assumes "render_hosts p e df n hs doc fs = (fs', Inr d)"
    and "\<forall>hv \<in> set hs. map_of (snd hv) = sev_lookup (group_findings True df) (fst hv)"
    and "python_case p"
  shows "d = doc @ concat (map (\<lambda>(k, h). host_section p df k h) (enumerate (Suc n) (map fst hs)))
       \<and> (\<forall>hv \<in> set hs. \<forall>sev \<in> set severity_order. \<forall>r \<in> set (rows_of df (fst hv) (Str sev)).
                 Name r \<noteq> NaN \<and> Description r \<noteq> NaN \<and> Solution r \<noteq> NaN)"
  using assms(1,2)
proof (induction hs arbitrary: n doc fs)
  case Nil
  then show ?case by simp
next
  case (Cons hv hs)
  obtain host sevs where hv: "hv = (host, sevs)" by (cases hv)
  from Cons.prems(2) hv have look: "map_of sevs = sev_lookup (group_findings True df) host"
    and rest: "\<forall>hv \<in> set hs. map_of (snd hv) = sev_lookup (group_findings True df) (fst hv)"
    by simp_all
  from render_hosts_step [OF Cons.prems(1) [unfolded hv]] obtain h d1 d2 d3 fs1 where
    h: "host = Str h" and
    d1: "doc_add_paragraph p doc (host_heading p (Suc n) host) ''Heading 2'' = Inr d1" and
    c: "add_severity_chart e (filter (\<lambda>r. Host r = Str h) df) d1 (replace_dots h @ ''_chart.png'')
            (h @ '' - Vulnerabilities by Severity'') fs = (fs1, Inr d2)" and
    s: "render_severities p (Suc n) sevs (enumerate 1 severity_order) d2 = Inr d3" and
    r: "render_hosts p e df (Suc n) hs d3 fs1 = (fs', Inr d)"
    by blast
  have sub: "snd ` set (enumerate 1 severity_order) \<subseteq> set severity_order"
    by (simp add: snd_set_enumerate)
  note a = render_severities_Inr [OF s look sub assms(3)]
  note b = Cons.IH [OF r rest]
  have d3: "d3 = doc @ host_section p df (Suc n) host"
    using a doc_add_paragraph_Inr [OF d1] add_severity_chart_Inr [OF c]
    by (simp add: host_section_def present_def h severity_order_def)
  from a have fields: "\<forall>sev \<in> set severity_order. \<forall>r \<in> set (rows_of df host (Str sev)).
                 Name r \<noteq> NaN \<and> Description r \<noteq> NaN \<and> Solution r \<noteq> NaN"
    by (metis enumerate_sndE)
  from b d3 fields hv show ?case by simp
qed

subsection \<open>The whole report\<close>

lemma front_rest_Inr:
  "front_rest p doc = Inr d \<Longrightarrow>
   d = doc @ [Paragraph ''\<newline>'' ''Normal'', PageBreak,
              Paragraph ''2. Executive Summary'' ''Heading 1'',
              Paragraph ''Add executive summary here...\<newline>'' ''Normal'',
              PageBreak,
              Paragraph ''3. Vulnerabilities and Remediations'' ''Heading 1'']"
  unfolding front_rest_def bind_eq_Inr
  by (auto dest!: doc_add_paragraph_Inr)

text \<open>What the steps of a run that succeeds return.\<close>

lemma generate_report_steps:
  assumes "generate_report p e df0 template fs = (fs', Inr d)"
  shows "\<exists>df d0 d1 d2 fs1. load_findings p df0 = Inr df
       \<and> doc_add_paragraph p (template @ [PageBreak]) ''1. Statistics'' ''Heading 1'' = Inr d0
       \<and> add_severity_chart e df d0 ''severity_chart.png'' ''Vulnerabilities by Severity'' fs
           = (fs1, Inr d1)
       \<and> front_rest p d1 = Inr d2
       \<and> render_hosts p e df 0 (group_findings (text_column (map Host df0)) df) d2 fs1
           = (fs', Inr d)"
proof -
  from assms obtain df where df: "load_findings p df0 = Inr df"
    by (cases "load_findings p df0") (simp_all add: generate_report_def)
  let ?hd = "doc_add_paragraph p (template @ [PageBreak]) ''1. Statistics'' ''Heading 1''"
  from assms df obtain d0 where d0: "?hd = Inr d0"
    by (cases ?hd) (simp_all add: generate_report_def Let_def)
  let ?chart = "add_severity_chart e df d0 ''severity_chart.png''
                  ''Vulnerabilities by Severity'' fs"
  obtain fs1 res where c: "?chart = (fs1, res)" by (cases ?chart)
  from assms df d0 c obtain d1 where res: "res = Inr d1"
    by (cases res) (simp_all add: generate_report_def Let_def)
  from assms df d0 c res obtain d2 where d2: "front_rest p d1 = Inr d2"
    by (cases "front_rest p d1") (simp_all add: generate_report_def Let_def)
  from assms df d0 c res d2
  have "render_hosts p e df 0 (group_findings (text_column (map Host df0)) df) d2 fs1
           = (fs', Inr d)"
    by (simp add: generate_report_def Let_def)
  with df d0 c res d2 show ?thesis by blast
qed

lemma generate_report_Inr:
  assumes "generate_report p e df0 template fs = (fs', Inr d)" and "python_case p"
  shows "\<exists>df. load_findings p df0 = Inr df \<and> d = template @ layout p df
       \<and> (\<forall>r \<in> set df. is_str (Host r)
            \<and> (charted (Risk r) \<longrightarrow>
                 Name r \<noteq> NaN \<and> Description r \<noteq> NaN \<and> Solution r \<noteq> NaN))"
proof -
  from generate_report_steps [OF assms(1)] obtain df d0 d1 d2 fs1 where
    df: "load_findings p df0 = Inr df" and
    d0: "doc_add_paragraph p (template @ [PageBreak]) ''1. Statistics'' ''Heading 1'' = Inr d0" and
    c: "add_severity_chart e df d0 ''severity_chart.png'' ''Vulnerabilities by Severity'' fs
           = (fs1, Inr d1)" and
    d2: "front_rest p d1 = Inr d2" and
    h: "render_hosts p e df 0 (group_findings (text_column (map Host df0)) df) d2 fs1
           = (fs', Inr d)"
    by blast
  let ?sh = "text_column (map Host df0)"
  from render_hosts_keys [OF h] have "\<forall>k \<in> fst ` set (group_findings ?sh df). is_str k"
    by simp
  then have hosts: "\<forall>r \<in> set df. is_str (Host r)"
    by (simp add: key_set_group_findings)
  then have "\<forall>r \<in> set df. Host r \<noteq> NaN" by auto
  then have g: "group_findings ?sh df = group_findings True df"
    by (intro group_findings_plain) simp
  note a = render_hosts_Inr [OF h [unfolded g] group_findings_lookup assms(2)]
  have lay: "d = template @ layout p df"
    using a doc_add_paragraph_Inr [OF d0] add_severity_chart_Inr [OF c] front_rest_Inr [OF d2]
    by (simp add: layout_def front_matter_def hosts_of_def keys_group_findings)
  have "\<forall>r \<in> set df. charted (Risk r) \<longrightarrow>
                 Name r \<noteq> NaN \<and> Description r \<noteq> NaN \<and> Solution r \<noteq> NaN"
  proof (intro ballI impI)
    fix r assume r: "r \<in> set df" and ch: "charted (Risk r)"
    then have "Host r \<in> fst ` set (group_findings True df)"
      by (simp add: key_set_group_findings)
    then obtain hv where hv: "hv \<in> set (group_findings True df)" "fst hv = Host r"
      by auto
    from ch obtain sev where sev: "Risk r = Str sev" "sev \<in> set severity_order"
      by (auto simp: charted_def severity_order_def)
    from r sev have "r \<in> set (rows_of df (Host r) (Str sev))"
      by (simp add: rows_of_def)
    with a hv sev show "Name r \<noteq> NaN \<and> Description r \<noteq> NaN \<and> Solution r \<noteq> NaN"
      by metis
  qed
  with df lay hosts show ?thesis by blast
qed

section \<open>The claims\<close>

subsection \<open>Which rows are kept\<close>

text \<open>Claim C1, as the program behaves. The claim says that a row is left out of the
  grouped findings and of all chart counts exactly when its severity is missing or none. A row
  of severity Info is neither: it is kept and grouped, and still no chart counts it, neither the
  global chart nor the chart of its host.\<close>

theorem kept_iff_counterexample:
  "map Risk info_only = [Str ''Info'']
   \<and> severity_excluded plain_runtime (Str ''Info'') = False
   \<and> load_findings plain_runtime info_only = Inr info_kept
   \<and> all_vulns (group_findings True info_kept) = map to_vuln info_kept
   \<and> severity_counts info_kept = [(''CRITICAL'', 0), (''MEDIUM'', 0), (''LOW'', 0)]
   \<and> severity_counts (filter (\<lambda>r. cell_eq (Host r) (Str ''h1'')) info_kept)
       = [(''CRITICAL'', 0), (''MEDIUM'', 0), (''LOW'', 0)]"
  by code_simp

text \<open>Claim C1, amended. The table is the one that line 79 has read, with a Risk column as
  the loader returns it. When the Risk column is a text column (it holds a string, or the table
  has no rows), loading succeeds, and a row is dropped exactly when its severity is missing or
  empty or is the word none in any mix of cases: the kept rows are the other rows, in the order
  of the input, each normalised. The findings of the grouping, taken together, are the kept rows
  and no others. A chart counts kept rows only, and of these the rows whose normalised severity
  is CRITICAL, MEDIUM or LOW: each count of the global chart and of the chart of a host is the
  number of the rows that are not dropped and have that severity (and that host). When the Risk
  column is not a text column, line 83 raises AttributeError and there are no kept rows at
  all.\<close>

theorem kept_iff_not_missing_or_none:
  assumes "loaded_column (map Risk df0)"
  shows "(text_column (map Risk df0) \<longrightarrow>
      load_findings p df0 = Inr (kept_rows p df0)
      \<and> kept_rows p df0
          = map (normalize_row p) (filter (\<lambda>r. \<not> severity_excluded p (Risk r)) df0)
      \<and> mset (all_vulns (group_findings shared (kept_rows p df0)))
          = mset (map to_vuln (kept_rows p df0))
      \<and> severity_counts (kept_rows p df0) =
           map (\<lambda>s. (s, length (filter (\<lambda>r. \<not> severity_excluded p (Risk r)
                                           \<and> Risk (normalize_row p r) = Str s) df0)))
             severity_order
      \<and> severity_counts (filter (\<lambda>r. cell_eq (Host r) (Str h)) (kept_rows p df0)) =
           map (\<lambda>s. (s, length (filter (\<lambda>r. \<not> severity_excluded p (Risk r)
                                           \<and> Host r = Str h
                                           \<and> Risk (normalize_row p r) = Str s) df0)))
             severity_order)
   \<and> (\<not> text_column (map Risk df0) \<longrightarrow> load_findings p df0 = Inl AttributeError)"
proof (intro conjI impI)
  let ?n = "normalize_row p"
  let ?keep = "\<lambda>r. \<not> severity_excluded p (Risk r)"
  let ?df = "kept_rows p df0"
  have kx: "?df = map ?n (filter ?keep df0)"
    by (rule kept_rows_excluded [OF assms])
  have host: "cell_eq (Host (?n r)) (Str h) = (Host r = Str h)" for r
    by (simp add: normalize_row_def cell_eq_Str)
  have a: "length (filter (\<lambda>r. Risk r = Str s) ?df) =
           length (filter (\<lambda>r. ?keep r \<and> Risk (?n r) = Str s) df0)" for s
    by (simp add: kx filter_map o_def conj_commute)
  have b: "length (filter (\<lambda>r. Risk r = Str s) (filter (\<lambda>r. cell_eq (Host r) (Str h)) ?df)) =
           length (filter (\<lambda>r. ?keep r \<and> Host r = Str h \<and> Risk (?n r) = Str s) df0)" for s
    by (simp add: kx filter_map o_def host)
  show "load_findings p df0 = Inr ?df" if "text_column (map Risk df0)"
    using load_findings_text [OF that] by (simp add: kept_rows_def)
  show "?df = map ?n (filter ?keep df0)"
    by (rule kx)
  show "mset (all_vulns (group_findings shared ?df)) = mset (map to_vuln ?df)"
    by (rule mset_all_vulns)
  show "severity_counts ?df =
           map (\<lambda>s. (s, length (filter (\<lambda>r. ?keep r \<and> Risk (?n r) = Str s) df0))) severity_order"
    by (simp only: severity_counts_eq a severity_order_def)
  show "severity_counts (filter (\<lambda>r. cell_eq (Host r) (Str h)) ?df) =
           map (\<lambda>s. (s, length (filter (\<lambda>r. ?keep r \<and> Host r = Str h \<and> Risk (?n r) = Str s) df0)))
             severity_order"
    by (simp only: severity_counts_eq b severity_order_def)
  show "load_findings p df0 = Inl AttributeError" if "\<not> text_column (map Risk df0)"
    using that by (rule load_findings_not_text)
qed

theorem kept_iff_not_missing_or_none_witness:
  "loaded_column (map Risk mixed)
   \<and> text_column (map Risk mixed)
   \<and> load_findings plain_runtime mixed = Inr mixed_kept
   \<and> kept_rows plain_runtime mixed = mixed_kept
   \<and> severity_counts mixed_kept = [(''CRITICAL'', 1), (''MEDIUM'', 1), (''LOW'', 0)]"
proof -
  have t: "text_column (map Risk mixed)"
    by code_simp
  have k: "kept_rows plain_runtime mixed = mixed_kept"
    by code_simp
  have c: "severity_counts mixed_kept = [(''CRITICAL'', 1), (''MEDIUM'', 1), (''LOW'', 0)]"
    by code_simp
  have n: "loaded_column (map Risk mixed)"
    by code_simp
  from kept_iff_not_missing_or_none [OF n, of plain_runtime True "''h1''"] t
  have "load_findings plain_runtime mixed = Inr (kept_rows plain_runtime mixed)"
    by blast
  with n t k c show ?thesis by simp
qed

subsection \<open>High becomes critical\<close>

lemma concat_map_split:
  "x \<in> set xs \<Longrightarrow> \<exists>pre post. concat (map f xs) = pre @ f x @ post"
proof -
  assume "x \<in> set xs"
  then obtain ys zs where "xs = ys @ x # zs" by (auto dest: split_list)
  then have "concat (map f xs) = concat (map f ys) @ f x @ concat (map f zs)" by simp
  then show ?thesis by blast
qed

lemma mem_filter: "x \<in> set xs \<Longrightarrow> P x \<Longrightarrow> x \<in> set (filter P xs)"
  by simp

lemma in_enumerate: "x \<in> set xs \<Longrightarrow> \<exists>j. (j, x) \<in> set (enumerate n xs)"
  using enumerate_sndE [of x xs n] by (metis prod.collapse)

lemma critical_heading:
  "severity_heading k 1 ''CRITICAL'' = ''3.'' @ str_nat k @ ''.1 Critical Vulnerabilities''"
proof -
  have "capitalize ''CRITICAL'' = ''Critical''" by code_simp
  moreover have "str_nat 1 = ''1''" by code_simp
  ultimately show ?thesis by (simp add: severity_heading_def)
qed

text \<open>A kept row of one of the three rendered severities has its section in the layout, and
  its block in that section.\<close>

lemma layout_has_section:
  assumes "x \<in> set df" and "Risk x = Str sev" and "(i, sev) \<in> set (enumerate 1 severity_order)"
  shows "\<exists>k pre post. layout p df = pre @ severity_section p df k (Host x) i sev @ post
       \<and> Table (block_cells sev (to_vuln x)) \<in> set (severity_section p df k (Host x) i sev)"
proof -
  from assms(1) have "Host x \<in> set (first_seen (map Host df))" by simp
  from in_enumerate [OF this, of 1] obtain k where k: "(k, Host x) \<in> set (hosts_of df)"
    unfolding hosts_of_def by blast
  from assms(1,2) have mem: "x \<in> set (rows_of df (Host x) (Str sev))"
    by (simp add: rows_of_def)
  then have "rows_of df (Host x) (Str sev) \<noteq> []" by auto
  moreover from assms(3) have "(i, sev) \<in> set (enumerate 1 [''CRITICAL'', ''MEDIUM'', ''LOW''])"
    by (simp only: severity_order_def)
  ultimately have pr: "(i, sev) \<in> set (present df (Host x))"
    unfolding present_def by (intro mem_filter) simp_all
  from concat_map_split [OF pr, of "\<lambda>(i, sev). severity_section p df k (Host x) i sev"]
  obtain a b where "host_section p df k (Host x)
      = ([Paragraph (host_heading p k (Host x)) ''Heading 2'',
          Picture \<lparr>chart_title = fmt p (Host x) @ '' - Vulnerabilities by Severity'',
                   bars = severity_counts (filter (\<lambda>r. Host r = Host x) df)\<rparr>] @ a)
        @ severity_section p df k (Host x) i sev @ b"
    by (auto simp: host_section_def)
  then obtain a' where hs: "host_section p df k (Host x)
      = a' @ severity_section p df k (Host x) i sev @ b"
    by blast
  from concat_map_split [OF k, of "\<lambda>(k, h). host_section p df k h"]
  obtain c d where "layout p df = (front_matter df @ c) @ host_section p df k (Host x) @ d"
    by (auto simp: layout_def)
  with hs have lay: "layout p df
      = (front_matter df @ c @ a') @ severity_section p df k (Host x) i sev @ (b @ d)"
    by simp
  from in_enumerate [OF mem, of 1] obtain j where
    "(j, x) \<in> set (enumerate 1 (rows_of df (Host x) (Str sev)))"
    by blast
  then have "Table (block_cells sev (to_vuln x)) \<in> set (severity_section p df k (Host x) i sev)"
    by (force simp: severity_section_def finding_block_def)
  with lay show ?thesis by blast
qed

text \<open>Claim C2. For every row, of a table with a Risk column as the loader returns it,
  whose severity string is HIGH in upper case: loading succeeds; the row is kept; the severity
  stored on the row and on its finding is exactly CRITICAL; the finding is stored in the
  grouping under its host and the key CRITICAL; the charts count under CRITICAL the kept rows
  that are HIGH or CRITICAL in upper case, and under MEDIUM and LOW the kept rows that are
  MEDIUM and LOW; and in every report that is generated, the section of the host with the
  sub-heading of the first severity, Critical Vulnerabilities, is there and holds the block of
  the row, with the risk label CRITICAL on the colour FF0000.\<close>

theorem high_is_critical:
  assumes "python_case p" and "r \<in> set df0" and "Risk r = Str s" and "rt_upper p s = ''HIGH''"
    and "loaded_column (map Risk df0)"
  shows "\<exists>df. load_findings p df0 = Inr df
      \<and> normalize_row p r \<in> set df
      \<and> Risk (normalize_row p r) = Str ''CRITICAL''
      \<and> risk (to_vuln (normalize_row p r)) = Str ''CRITICAL''
      \<and> stored (group_findings shared df) (Host r) (Str ''CRITICAL'') (to_vuln (normalize_row p r))
      \<and> severity_counts df =
          [(''CRITICAL'', length (filter (\<lambda>x. \<not> dropped p (Risk x)
               \<and> (cell_upper p (Risk x) = Str ''HIGH'' \<or> cell_upper p (Risk x) = Str ''CRITICAL''))
               df0)),
           (''MEDIUM'', length (filter (\<lambda>x. \<not> dropped p (Risk x)
               \<and> cell_upper p (Risk x) = Str ''MEDIUM'') df0)),
           (''LOW'', length (filter (\<lambda>x. \<not> dropped p (Risk x)
               \<and> cell_upper p (Risk x) = Str ''LOW'') df0))]
      \<and> (\<forall>e template fs fs' d. generate_report p e df0 template fs = (fs', Inr d) \<longrightarrow>
            (\<exists>k pre post.
               d = pre @ severity_section p df k (Host r) 1 ''CRITICAL'' @ post
               \<and> hd (severity_section p df k (Host r) 1 ''CRITICAL'')
                   = Paragraph (''3.'' @ str_nat k @ ''.1 Critical Vulnerabilities'') ''Heading 3''
               \<and> Table (block_cells ''CRITICAL'' (to_vuln (normalize_row p r)))
                   \<in> set (severity_section p df k (Host r) 1 ''CRITICAL'')
               \<and> shd (hd (block_cells ''CRITICAL'' (to_vuln (normalize_row p r)))) = [''FF0000'']
               \<and> pars (block_cells ''CRITICAL'' (to_vuln (normalize_row p r)) ! 1)
                   = [[Run ''Risk: CRITICAL'' True 12 None]]))"
proof -
  let ?r = "normalize_row p r"
  let ?df = "kept_rows p df0"
  have keep: "\<not> dropped p (Risk r)"
    using upper_high_not_none [OF assms(1,4)] by (simp add: assms(3))
  have ok: "load_findings p df0 = Inr ?df"
    using load_findings_text [OF text_column_mem [OF assms(2,3)]] by (simp add: kept_rows_def)
  have mem: "?r \<in> set ?df"
    using assms(2) keep by (auto simp: kept_rows_def)
  have crit: "Risk ?r = Str ''CRITICAL''"
    by (simp add: normalize_row_def assms(3,4) replace_high_def)
  have host: "Host ?r = Host r"
    by (simp add: normalize_row_def)
  have st: "stored (group_findings shared ?df) (Host r) (Str ''CRITICAL'') (to_vuln ?r)"
    using stored_group_findings [OF mem, of shared] by (simp add: crit host)
  have n: "(Risk (normalize_row p x) = Str c) =
           (if c = ''CRITICAL''
            then cell_upper p (Risk x) = Str ''HIGH'' \<or> cell_upper p (Risk x) = Str ''CRITICAL''
            else cell_upper p (Risk x) = Str c \<and> c \<noteq> ''HIGH'')" for x c
    by (auto simp: normalize_row_def replace_high_def)
  have cnt: "length (filter (\<lambda>r. Risk r = Str c) ?df) =
             length (filter (\<lambda>x. \<not> dropped p (Risk x)
                              \<and> Risk (normalize_row p x) = Str c) df0)" for c
    by (simp add: kept_rows_def filter_map o_def conj_commute)
  have counts: "severity_counts ?df =
          [(''CRITICAL'', length (filter (\<lambda>x. \<not> dropped p (Risk x)
               \<and> (cell_upper p (Risk x) = Str ''HIGH'' \<or> cell_upper p (Risk x) = Str ''CRITICAL''))
               df0)),
           (''MEDIUM'', length (filter (\<lambda>x. \<not> dropped p (Risk x)
               \<and> cell_upper p (Risk x) = Str ''MEDIUM'') df0)),
           (''LOW'', length (filter (\<lambda>x. \<not> dropped p (Risk x)
               \<and> cell_upper p (Risk x) = Str ''LOW'') df0))]"
    by (simp add: severity_counts_eq cnt n)
  have first: "(1, ''CRITICAL'') \<in> set (enumerate 1 severity_order)"
    by (simp add: severity_order_def)
  have hd: "hd (severity_section p ?df k (Host r) 1 ''CRITICAL'')
              = Paragraph (''3.'' @ str_nat k @ ''.1 Critical Vulnerabilities'') ''Heading 3''" for k
    by (simp only: severity_section_def list.sel critical_heading)
  have col: "shd (hd (block_cells ''CRITICAL'' (to_vuln ?r))) = [''FF0000'']"
    and lab: "pars (block_cells ''CRITICAL'' (to_vuln ?r) ! 1) = [[Run ''Risk: CRITICAL'' True 12 None]]"
    by (simp_all add: block_cells_def severity_rgb_def)
  have rep: "\<exists>k pre post.
               d = pre @ severity_section p ?df k (Host r) 1 ''CRITICAL'' @ post
               \<and> hd (severity_section p ?df k (Host r) 1 ''CRITICAL'')
                   = Paragraph (''3.'' @ str_nat k @ ''.1 Critical Vulnerabilities'') ''Heading 3''
               \<and> Table (block_cells ''CRITICAL'' (to_vuln ?r))
                   \<in> set (severity_section p ?df k (Host r) 1 ''CRITICAL'')
               \<and> shd (hd (block_cells ''CRITICAL'' (to_vuln ?r))) = [''FF0000'']
               \<and> pars (block_cells ''CRITICAL'' (to_vuln ?r) ! 1)
                   = [[Run ''Risk: CRITICAL'' True 12 None]]"
    if g: "generate_report p e df0 template fs = (fs', Inr d)" for e template fs fs' d
  proof -
    from generate_report_Inr [OF g assms(1)] ok have d: "d = template @ layout p ?df"
      by auto
    from layout_has_section [OF mem crit first, of p] obtain k pre post where
      "layout p ?df = pre @ severity_section p ?df k (Host r) 1 ''CRITICAL'' @ post"
      "Table (block_cells ''CRITICAL'' (to_vuln ?r))
         \<in> set (severity_section p ?df k (Host r) 1 ''CRITICAL'')"
      by (auto simp: host)
    with d have "d = (template @ pre) @ severity_section p ?df k (Host r) 1 ''CRITICAL'' @ post"
      by simp
    with \<open>Table (block_cells ''CRITICAL'' (to_vuln ?r))
         \<in> set (severity_section p ?df k (Host r) 1 ''CRITICAL'')\<close> hd col lab
    show ?thesis by blast
  qed
  have "risk (to_vuln ?r) = Str ''CRITICAL''"
    by (simp add: to_vuln_def crit)
  with ok mem crit st counts rep show ?thesis by blast
qed

theorem high_is_critical_witness:
  "python_case plain_runtime
   \<and> loaded_column (map Risk scenario)
   \<and> finding ''h1'' ''High'' ''A'' ''da'' ''sa'' \<in> set scenario
   \<and> Risk (finding ''h1'' ''High'' ''A'' ''da'' ''sa'') = Str ''High''
   \<and> rt_upper plain_runtime ''High'' = ''HIGH''
   \<and> load_findings plain_runtime scenario = Inr scenario_kept
   \<and> Risk (normalize_row plain_runtime (finding ''h1'' ''High'' ''A'' ''da'' ''sa''))
       = Str ''CRITICAL''
   \<and> severity_counts scenario_kept = [(''CRITICAL'', 1), (''MEDIUM'', 1), (''LOW'', 1)]"
proof -
  have m: "finding ''h1'' ''High'' ''A'' ''da'' ''sa'' \<in> set scenario"
    by (simp add: scenario_def)
  have k: "Risk (finding ''h1'' ''High'' ''A'' ''da'' ''sa'') = Str ''High''"
    by (simp add: finding_def)
  have u: "rt_upper plain_runtime ''High'' = ''HIGH''"
    by code_simp
  have l: "load_findings plain_runtime scenario = Inr scenario_kept"
    by code_simp
  have c: "severity_counts scenario_kept = [(''CRITICAL'', 1), (''MEDIUM'', 1), (''LOW'', 1)]"
    by code_simp
  have lc: "loaded_column (map Risk scenario)"
    by code_simp
  from high_is_critical [OF python_case_plain m k u lc, of True]
  have "Risk (normalize_row plain_runtime (finding ''h1'' ''High'' ''A'' ''da'' ''sa''))
       = Str ''CRITICAL''"
    by blast
  with python_case_plain m k u l c lc show ?thesis by blast
qed

subsection \<open>Order inside a bucket\<close>

lemma map_of_group_row:
  assumes "h \<noteq> NaN"
  shows "map_of (group_row b g r) h =
           (if Host r = h
            then Some (dd_update (Risk r) [] (\<lambda>vs. vs @ [to_vuln r])
                         (case map_of g h of None \<Rightarrow> [] | Some v \<Rightarrow> v))
            else map_of g h)"
proof (cases "Host r = NaN \<and> \<not> b")
  case True
  with assms show ?thesis
    by (simp add: group_row_def map_add_def split: option.split)
next
  case False
  then show ?thesis
    by (auto simp: group_row_def map_of_dd_update)
qed

lemma map_of_group_findings_plain:
  assumes "h \<noteq> NaN"
  shows "map_of (group_findings b df) h = map_of (group_findings True df) h"
  unfolding group_findings_def
  by (induction df rule: rev_induct) (simp_all add: map_of_group_row [OF assms])

text \<open>Claim C3. Grouping is stable. For a host whose rows share one key of the dictionary
  (any host that is not missing, and the missing host of a text column), the bucket of the host
  and of a severity holds the findings of exactly the kept rows with that host and that
  severity, in the order in which these rows stand in the input; and when the findings of the
  bucket of one of the rendered severities are rendered, the blocks that are appended stand in
  that same order, numbered from 1. (A row whose host is missing in a Host column without text
  has a key of its own and shares its bucket with no other row.)\<close>

theorem grouping_stable:
  "(shared \<or> h \<noteq> NaN \<longrightarrow>
      bucket (group_findings shared df) h s
        = map to_vuln (filter (\<lambda>r. Host r = h \<and> Risk r = s) df))
   \<and> (shared \<or> h \<noteq> NaN \<longrightarrow> python_case p \<longrightarrow> sev \<in> set severity_order \<longrightarrow>
        render_vulns p k i (enumerate 1 (bucket (group_findings shared df) h (Str sev))) doc
          = Inr d \<longrightarrow>
        d = doc @ concat (map (\<lambda>(j, r). finding_block p k i j sev (to_vuln r))
                           (enumerate 1 (filter (\<lambda>r. Host r = h \<and> Risk r = Str sev) df))))"
proof (intro conjI impI)
  assume sh: "shared \<or> h \<noteq> NaN"
  have plain: "bucket (group_findings shared df) h s = bucket (group_findings True df) h s" for s
  proof (cases shared)
    case True
    then show ?thesis by simp
  next
    case False
    with sh have h: "h \<noteq> NaN" by simp
    show ?thesis
      by (simp add: bucket_def map_of_group_findings_plain [OF h, of shared])
  qed
  show "bucket (group_findings shared df) h s
          = map to_vuln (filter (\<lambda>r. Host r = h \<and> Risk r = s) df)"
    by (simp add: plain bucket_group_findings rows_of_def)
  let ?rows = "filter (\<lambda>r. Host r = h \<and> Risk r = Str sev) df"
  assume pc: "python_case p" and sev: "sev \<in> set severity_order"
    and "render_vulns p k i (enumerate 1 (bucket (group_findings shared df) h (Str sev))) doc
           = Inr d"
  then have r: "render_vulns p k i (enumerate 1 (map to_vuln ?rows)) doc = Inr d"
    by (simp add: plain bucket_group_findings rows_of_def)
  have "\<forall>jv \<in> set (enumerate 1 (map to_vuln ?rows)). risk (snd jv) = Str sev"
    by (auto simp: to_vuln_def dest!: enumerate_sndD)
  from render_vulns_Inr [OF r this sev pc]
  show "d = doc @ concat (map (\<lambda>(j, r). finding_block p k i j sev (to_vuln r)) (enumerate 1 ?rows))"
    by (simp add: enumerate_map map_map o_def split_def)
qed

theorem grouping_stable_witness:
  "python_case plain_runtime
   \<and> ''CRITICAL'' \<in> set severity_order
   \<and> bucket (group_findings True twins_kept) (Str ''h1'') (Str ''CRITICAL'') =
       [to_vuln (twins_kept ! 0), to_vuln (twins_kept ! 2)]
   \<and> render_vulns plain_runtime 1 1
       (enumerate 1 (bucket (group_findings True twins_kept) (Str ''h1'') (Str ''CRITICAL''))) []
       = Inr (finding_block plain_runtime 1 1 1 ''CRITICAL'' (to_vuln (twins_kept ! 0))
              @ finding_block plain_runtime 1 1 2 ''CRITICAL'' (to_vuln (twins_kept ! 2)))"
proof -
  have a: "bucket (group_findings True twins_kept) (Str ''h1'') (Str ''CRITICAL'') =
     [to_vuln (twins_kept ! 0), to_vuln (twins_kept ! 2)]"
    by code_simp
  have b: "''CRITICAL'' \<in> set severity_order"
    by (simp add: severity_order_def)
  have c: "render_vulns plain_runtime 1 1
             (enumerate 1 (bucket (group_findings True twins_kept) (Str ''h1'') (Str ''CRITICAL''))) []
       = Inr (finding_block plain_runtime 1 1 1 ''CRITICAL'' (to_vuln (twins_kept ! 0))
              @ finding_block plain_runtime 1 1 2 ''CRITICAL'' (to_vuln (twins_kept ! 2)))"
    by code_simp
  from grouping_stable [of True "Str ''h1''" twins_kept "Str ''CRITICAL''" plain_runtime
      "''CRITICAL''" 1 1 "[]"] python_case_plain a b c
  show ?thesis by blast
qed

subsection \<open>The order of the sections\<close>

lemma headings_append: "headings st (xs @ ys) = headings st xs @ headings st ys"
  by (induction st xs rule: headings.induct) simp_all

lemma headings_concat: "headings st (concat xss) = concat (map (headings st) xss)"
  by (induction xss) (simp_all add: headings_append)

lemma headings_finding_block:
  "st \<noteq> ''Heading 4'' \<Longrightarrow> headings st (finding_block p k i j sev v) = []"
  by (simp add: finding_block_def)

lemma headings_blocks:
  "st \<noteq> ''Heading 4'' \<Longrightarrow>
   headings st (concat (map (\<lambda>(j, r). finding_block p k i j sev (to_vuln r)) jrs)) = []"
  by (induction jrs) (auto simp: headings_append headings_finding_block)

lemma headings2_severity_section: "headings ''Heading 2'' (severity_section p df k h i sev) = []"
  by (simp add: severity_section_def headings_blocks)

lemma headings3_severity_section:
  "headings ''Heading 3'' (severity_section p df k h i sev) = [severity_heading k i sev]"
  by (simp add: severity_section_def headings_blocks)

lemma headings2_host_section:
  "headings ''Heading 2'' (host_section p df k h) = [host_heading p k h]"
proof -
  have "headings ''Heading 2''
          (concat (map (\<lambda>(i, sev). severity_section p df k h i sev) ivs)) = []" for ivs
    by (induction ivs) (auto simp: headings_append headings2_severity_section)
  then show ?thesis by (simp add: host_section_def headings_append)
qed

lemma headings3_host_section:
  "headings ''Heading 3'' (host_section p df k h)
     = map (\<lambda>(i, sev). severity_heading k i sev) (present df h)"
proof -
  have "headings ''Heading 3''
          (concat (map (\<lambda>(i, sev). severity_section p df k h i sev) ivs))
        = map (\<lambda>(i, sev). severity_heading k i sev) ivs" for ivs
    by (induction ivs) (auto simp: headings_append headings3_severity_section)
  then show ?thesis by (simp add: host_section_def headings_append)
qed

lemma headings2_layout:
  "headings ''Heading 2'' (layout p df) = map (\<lambda>(k, h). host_heading p k h) (hosts_of df)"
proof -
  have "headings ''Heading 2'' (concat (map (\<lambda>(k, h). host_section p df k h) khs))
        = map (\<lambda>(k, h). host_heading p k h) khs" for khs
    by (induction khs) (auto simp: headings_append headings2_host_section)
  then show ?thesis by (simp add: layout_def front_matter_def headings_append)
qed

lemma headings3_layout:
  "headings ''Heading 3'' (layout p df)
     = concat (map (\<lambda>(k, h). map (\<lambda>(i, sev). severity_heading k i sev) (present df h))
                 (hosts_of df))"
proof -
  have "headings ''Heading 3'' (concat (map (\<lambda>(k, h). host_section p df k h) khs))
        = concat (map (\<lambda>(k, h). map (\<lambda>(i, sev). severity_heading k i sev) (present df h)) khs)"
    for khs
    by (induction khs) (auto simp: headings_append headings3_host_section)
  then show ?thesis by (simp add: layout_def front_matter_def headings_append)
qed

text \<open>Claim C4. In every report that is generated from a table with a Risk column as the
  loader returns it, the host headings that follow the template are those of the hosts in the
  order in which each host is seen first among the kept rows, numbered from 1; and the severity
  sub-headings are, host after host in that order, those of the severities that the host has,
  always in the order CRITICAL, MEDIUM, LOW, each with its place in that order as its number,
  whatever the order of the severities in the input.\<close>

theorem section_order:
  assumes "generate_report p e df0 template fs = (fs', Inr d)" and "python_case p"
    and "loaded_column (map Risk df0)"
  shows "\<exists>df. load_findings p df0 = Inr df
       \<and> headings ''Heading 2'' (drop (length template) d)
           = map (\<lambda>(k, h). host_heading p k h) (enumerate 1 (first_seen (map Host df)))
       \<and> headings ''Heading 3'' (drop (length template) d)
           = concat (map (\<lambda>(k, h). map (\<lambda>(i, sev). severity_heading k i sev)
                                      (filter (\<lambda>(i, sev). rows_of df h (Str sev) \<noteq> [])
                                         (enumerate 1 [''CRITICAL'', ''MEDIUM'', ''LOW''])))
                       (enumerate 1 (first_seen (map Host df))))"
proof -
  from generate_report_Inr [OF assms(1,2)] obtain df where
    df: "load_findings p df0 = Inr df" and d: "d = template @ layout p df"
    by blast
  from d have "drop (length template) d = layout p df" by simp
  with df show ?thesis
    by (auto simp: headings2_layout headings3_layout hosts_of_def present_def)
qed

theorem section_order_witness:
  "python_case plain_runtime
   \<and> loaded_column (map Risk scenario)
   \<and> generate_report plain_runtime all_ok scenario [] {}
       = ({}, Inr (layout plain_runtime scenario_kept))
   \<and> headings ''Heading 2'' (layout plain_runtime scenario_kept) = [''3.1 h1'', ''3.2 h2'']
   \<and> headings ''Heading 3'' (layout plain_runtime scenario_kept)
       = [''3.1.1 Critical Vulnerabilities'', ''3.1.3 Low Vulnerabilities'',
          ''3.2.2 Medium Vulnerabilities'']"
proof -
  have a: "generate_report plain_runtime all_ok scenario [] {}
             = ({}, Inr (layout plain_runtime scenario_kept))"
    by code_simp
  have b: "headings ''Heading 2'' (layout plain_runtime scenario_kept) = [''3.1 h1'', ''3.2 h2'']"
    by code_simp
  have c: "headings ''Heading 3'' (layout plain_runtime scenario_kept)
       = [''3.1.1 Critical Vulnerabilities'', ''3.1.3 Low Vulnerabilities'',
          ''3.2.2 Medium Vulnerabilities'']"
    by code_simp
  have lc: "loaded_column (map Risk scenario)"
    by code_simp
  from section_order [OF a python_case_plain lc] python_case_plain a b c lc show ?thesis
    by blast
qed

subsection \<open>What a chart counts\<close>

text \<open>Claim C5, as the program behaves. The claim says that the three counts of a chart
  add up to the number of kept findings in its scope. A finding of severity Info is kept, and no
  category counts it: one finding in scope, and the counts add up to zero.\<close>

theorem counts_sum_counterexample:
  "load_findings plain_runtime info_only = Inr info_kept
   \<and> severity_counts info_kept = [(''CRITICAL'', 0), (''MEDIUM'', 0), (''LOW'', 0)]
   \<and> sum_list (map snd (severity_counts info_kept)) = 0
   \<and> length info_kept = 1"
proof -
  have a: "load_findings plain_runtime info_only = Inr info_kept"
    by code_simp
  have b: "severity_counts info_kept = [(''CRITICAL'', 0), (''MEDIUM'', 0), (''LOW'', 0)]"
    by (simp add: severity_counts_eq info_kept_def)
  have c: "sum_list (map snd (severity_counts info_kept)) = 0"
    by (simp add: b)
  have d: "length info_kept = 1"
    by (simp add: info_kept_def)
  from a b c d show ?thesis by blast
qed

text \<open>Claim C5, amended. Every chart, the global one and the one of a host, shows exactly
  the categories CRITICAL, MEDIUM and LOW in this order; the count of a category is the number
  of the rows in scope with that severity, zero when there is none; and the three counts add up
  to the number of the rows in scope whose severity is one of the three, which is the number of
  all rows in scope when every row in scope has such a severity.\<close>

theorem chart_counts:
  assumes "add_severity_chart e df doc chart_name ttl fs = (fs', Inr doc')"
  shows "\<exists>b. doc' = doc @ [Picture \<lparr>chart_title = ttl, bars = b\<rparr>]
       \<and> b = map (\<lambda>s. (s, length (filter (\<lambda>r. Risk r = Str s) df)))
                [''CRITICAL'', ''MEDIUM'', ''LOW'']
       \<and> sum_list (map snd b) = length (filter (\<lambda>r. Risk r \<in> Str ` set severity_order) df)
       \<and> ((\<forall>r \<in> set df. Risk r \<in> Str ` set severity_order) \<longrightarrow> sum_list (map snd b) = length df)"
proof -
  from assms have d: "doc' = doc @ [Picture \<lparr>chart_title = ttl, bars = severity_counts df\<rparr>]"
    by (simp add: add_severity_chart_def Let_def split: if_splits)
  have s: "sum_list (map snd (severity_counts df)) =
           length (filter (\<lambda>r. Risk r \<in> Str ` set severity_order) df)"
    by (rule severity_counts_sum)
  have t: "(\<forall>r \<in> set df. Risk r \<in> Str ` set severity_order) \<longrightarrow>
        sum_list (map snd (severity_counts df)) = length df"
    by (simp add: s)
  have e: "severity_counts df = map (\<lambda>s. (s, length (filter (\<lambda>r. Risk r = Str s) df)))
                [''CRITICAL'', ''MEDIUM'', ''LOW'']"
    by (rule severity_counts_eq)
  show ?thesis
  proof (intro exI conjI)
    show "doc' = doc @ [Picture \<lparr>chart_title = ttl, bars = severity_counts df\<rparr>]" by (rule d)
    show "severity_counts df = map (\<lambda>s. (s, length (filter (\<lambda>r. Risk r = Str s) df)))
                [''CRITICAL'', ''MEDIUM'', ''LOW'']" by (rule e)
    show "sum_list (map snd (severity_counts df)) =
           length (filter (\<lambda>r. Risk r \<in> Str ` set severity_order) df)" by (rule s)
    show "(\<forall>r \<in> set df. Risk r \<in> Str ` set severity_order) \<longrightarrow>
        sum_list (map snd (severity_counts df)) = length df" by (rule t)
  qed
qed

theorem chart_counts_witness:
  "add_severity_chart all_ok mixed_kept [] ''severity_chart.png'' ''Vulnerabilities by Severity'' {}
     = ({}, Inr [Picture \<lparr>chart_title = ''Vulnerabilities by Severity'',
                          bars = [(''CRITICAL'', 1), (''MEDIUM'', 1), (''LOW'', 0)]\<rparr>])
   \<and> length (filter (\<lambda>r. Risk r \<in> Str ` set severity_order) mixed_kept) = 2"
proof -
  have h: "add_severity_chart all_ok mixed_kept [] ''severity_chart.png''
             ''Vulnerabilities by Severity'' {}
           = ({}, Inr [Picture \<lparr>chart_title = ''Vulnerabilities by Severity'',
                          bars = [(''CRITICAL'', 1), (''MEDIUM'', 1), (''LOW'', 0)]\<rparr>])"
    by (simp add: add_severity_chart_def all_ok_def severity_counts_eq mixed_kept_def)
  from chart_counts [OF h] obtain b where
    b: "[Picture \<lparr>chart_title = ''Vulnerabilities by Severity'',
                          bars = [(''CRITICAL'', 1), (''MEDIUM'', 1), (''LOW'', 0)]\<rparr>]
        = [] @ [Picture \<lparr>chart_title = ''Vulnerabilities by Severity'', bars = b\<rparr>]"
    and s: "sum_list (map snd b) = length (filter (\<lambda>r. Risk r \<in> Str ` set severity_order) mixed_kept)"
    by blast
  from b have "b = [(''CRITICAL'', 1), (''MEDIUM'', 1), (''LOW'', 0)]" by simp
  with s have "length (filter (\<lambda>r. Risk r \<in> Str ` set severity_order) mixed_kept) = 2"
    by simp
  with h show ?thesis by blast
qed

subsection \<open>The transient chart file\<close>

text \<open>Claim C6, as the program behaves. The claim says that the chart file is deleted even
  when embedding the picture fails. The program has no handler around the embedding: when it
  fails, the error reaches the caller and the file that was just written stays.\<close>

theorem chart_file_left_counterexample:
  "add_severity_chart embed_fails [] [] ''severity_chart.png'' ''Vulnerabilities by Severity'' {}
     = ({''severity_chart.png''}, Inl PictureError)"
  by (simp add: add_severity_chart_def embed_fails_def)

text \<open>Claim C6, amended. Once the chart file is written: when embedding succeeds, the
  picture is appended and the file is gone afterwards; when embedding fails, the error is
  returned to the caller, not swallowed, and the deletion is not reached, so the file is still
  there.\<close>

theorem chart_file_lifetime:
  assumes "savefig_ok e chart_name"
  shows "(add_picture_ok e chart_name \<longrightarrow>
            add_severity_chart e df doc chart_name ttl fs =
              (fs - {chart_name},
               Inr (doc @ [Picture \<lparr>chart_title = ttl, bars = severity_counts df\<rparr>])))
       \<and> (\<not> add_picture_ok e chart_name \<longrightarrow>
            add_severity_chart e df doc chart_name ttl fs = (insert chart_name fs, Inl PictureError))"
  using assms by (simp add: add_severity_chart_def Let_def)

theorem chart_file_lifetime_witness:
  "savefig_ok all_ok ''c.png'' \<and> add_picture_ok all_ok ''c.png''
   \<and> add_severity_chart all_ok [] [] ''c.png'' ''t'' {''c.png'', ''other''} =
       ({''other''}, Inr [Picture \<lparr>chart_title = ''t'', bars = severity_counts []\<rparr>])
   \<and> savefig_ok embed_fails ''c.png'' \<and> \<not> add_picture_ok embed_fails ''c.png''
   \<and> add_severity_chart embed_fails [] [] ''c.png'' ''t'' {''other''} =
       ({''c.png'', ''other''}, Inl PictureError)"
proof -
  have a: "savefig_ok all_ok ''c.png''" and b: "add_picture_ok all_ok ''c.png''"
    by (simp_all add: all_ok_def)
  have c: "savefig_ok embed_fails ''c.png''" and d: "\<not> add_picture_ok embed_fails ''c.png''"
    by (simp_all add: embed_fails_def)
  from chart_file_lifetime [OF a, of "[]" "[]" "''t''" "{''c.png'', ''other''}"] b
  have 1: "add_severity_chart all_ok [] [] ''c.png'' ''t'' {''c.png'', ''other''} =
       ({''other''}, Inr [Picture \<lparr>chart_title = ''t'', bars = severity_counts []\<rparr>])"
    by simp
  from chart_file_lifetime [OF c, of "[]" "[]" "''t''" "{''other''}"] d
  have 2: "add_severity_chart embed_fails [] [] ''c.png'' ''t'' {''other''} =
       ({''c.png'', ''other''}, Inl PictureError)"
    by simp
  from a b c d 1 2 show ?thesis by blast
qed

subsection \<open>A missing field\<close>

text \<open>Claim C7, as the program behaves. The claim says that a kept row with a missing
  Name, Description or Solution does not make the run fail and that the missing field is shown
  as blank text. A missing field is the float NaN in the table; the row is kept, and the library
  raises TypeError when the program hands the NaN to it as the text of the title.\<close>

theorem missing_field_counterexample:
  "load_findings plain_runtime nameless = Inr (map (\<lambda>r. r\<lparr>Risk := Str ''CRITICAL''\<rparr>) nameless)
   \<and> generate_report plain_runtime all_ok nameless [] {} = ({}, Inl TypeError)"
proof -
  have a: "load_findings plain_runtime nameless
             = Inr (map (\<lambda>r. r\<lparr>Risk := Str ''CRITICAL''\<rparr>) nameless)"
    by code_simp
  have b: "generate_report plain_runtime all_ok nameless [] {} = ({}, Inl TypeError)"
    by code_simp
  from a b show ?thesis by blast
qed

text \<open>Claim C7, amended. In a table with a Risk column as the loader returns it, a kept
  row passes through normalisation and grouping with its host, name, description and solution
  unchanged, a missing one still missing, and its finding is stored under its host and its
  normalised severity. Rendering does not tolerate a missing field: when the normalised severity
  of the row is CRITICAL, MEDIUM or LOW and its name, description or solution is missing, every
  run ends with an error and no document.\<close>

theorem missing_field_passed_through:
  assumes "python_case p" and "r \<in> set df0" and "text_column (map Risk df0)"
    and "\<not> dropped p (Risk r)" and "loaded_column (map Risk df0)"
  shows "\<exists>df. load_findings p df0 = Inr df
       \<and> normalize_row p r \<in> set df
       \<and> Host (normalize_row p r) = Host r
       \<and> Name (normalize_row p r) = Name r
       \<and> Description (normalize_row p r) = Description r
       \<and> Solution (normalize_row p r) = Solution r
       \<and> title (to_vuln (normalize_row p r)) = Name r
       \<and> description (to_vuln (normalize_row p r)) = Description r
       \<and> solution (to_vuln (normalize_row p r)) = Solution r
       \<and> stored (group_findings shared df) (Host r) (Risk (normalize_row p r))
           (to_vuln (normalize_row p r))
       \<and> (charted (Risk (normalize_row p r))
            \<and> (Name r = NaN \<or> Description r = NaN \<or> Solution r = NaN)
          \<longrightarrow> (\<forall>e template fs. \<exists>fs' err.
                 generate_report p e df0 template fs = (fs', Inl err)))"
proof -
  let ?r = "normalize_row p r"
  let ?df = "map (normalize_row p) (filter (\<lambda>r. \<not> dropped p (Risk r)) df0)"
  have ld: "load_findings p df0 = Inr ?df"
    by (rule load_findings_text [OF assms(3)])
  have mem: "?r \<in> set ?df"
    using assms(2,4) by simp
  have h: "Host ?r = Host r" and n: "Name ?r = Name r" and d: "Description ?r = Description r"
    and s: "Solution ?r = Solution r"
    by (simp_all add: normalize_row_def)
  have v: "title (to_vuln ?r) = Name r" "description (to_vuln ?r) = Description r"
    "solution (to_vuln ?r) = Solution r"
    by (simp_all add: to_vuln_def normalize_row_def)
  from stored_group_findings [OF mem, of shared]
  have st: "stored (group_findings shared ?df) (Host r) (Risk ?r) (to_vuln ?r)"
    by (simp only: h)
  have fatal: "\<exists>fs' err. generate_report p e df0 template fs = (fs', Inl err)"
    if c: "charted (Risk ?r)" and m: "Name r = NaN \<or> Description r = NaN \<or> Solution r = NaN"
    for e template fs
  proof (cases "generate_report p e df0 template fs")
    case (Pair fs' res)
    show ?thesis
    proof (cases res)
      case (Inl err)
      with Pair show ?thesis by blast
    next
      case (Inr doc)
      with Pair have "generate_report p e df0 template fs = (fs', Inr doc)" by simp
      from generate_report_Inr [OF this assms(1)] obtain df where
        df: "load_findings p df0 = Inr df" and
        ok: "\<forall>x \<in> set df. is_str (Host x)
               \<and> (charted (Risk x) \<longrightarrow> Name x \<noteq> NaN \<and> Description x \<noteq> NaN \<and> Solution x \<noteq> NaN)"
        by blast
      from df ld have "df = ?df" by simp
      with ok mem c have "Name ?r \<noteq> NaN \<and> Description ?r \<noteq> NaN \<and> Solution ?r \<noteq> NaN"
        by blast
      with m n d s show ?thesis by simp
    qed
  qed
  show ?thesis
  proof (intro exI conjI)
    show "load_findings p df0 = Inr ?df" by (rule ld)
    show "?r \<in> set ?df" by (rule mem)
    show "Host ?r = Host r" by (rule h)
    show "Name ?r = Name r" by (rule n)
    show "Description ?r = Description r" by (rule d)
    show "Solution ?r = Solution r" by (rule s)
    show "title (to_vuln ?r) = Name r" by (rule v)
    show "description (to_vuln ?r) = Description r" by (rule v)
    show "solution (to_vuln ?r) = Solution r" by (rule v)
    show "stored (group_findings shared ?df) (Host r) (Risk ?r) (to_vuln ?r)" by (rule st)
    show "charted (Risk ?r) \<and> (Name r = NaN \<or> Description r = NaN \<or> Solution r = NaN)
          \<longrightarrow> (\<forall>e template fs. \<exists>fs' err.
                 generate_report p e df0 template fs = (fs', Inl err))"
      using fatal by blast
  qed
qed

theorem missing_field_passed_through_witness:
  "python_case plain_runtime
   \<and> loaded_column (map Risk nameless)
   \<and> hd nameless \<in> set nameless
   \<and> text_column (map Risk nameless)
   \<and> \<not> dropped plain_runtime (Risk (hd nameless))
   \<and> charted (Risk (normalize_row plain_runtime (hd nameless)))
   \<and> Name (hd nameless) = NaN
   \<and> (\<exists>fs' err. generate_report plain_runtime all_ok nameless [] {} = (fs', Inl err))"
proof -
  have a: "hd nameless \<in> set nameless"
    by (simp add: nameless_def)
  have b: "text_column (map Risk nameless)"
    by (simp add: nameless_def text_column_def)
  have c: "\<not> dropped plain_runtime (Risk (hd nameless))"
    by code_simp
  have d: "charted (Risk (normalize_row plain_runtime (hd nameless)))"
    by code_simp
  have e: "Name (hd nameless) = NaN"
    by (simp add: nameless_def)
  have lc: "loaded_column (map Risk nameless)"
    by code_simp
  from missing_field_passed_through [OF python_case_plain a b c lc, of True] d e
  have "\<exists>fs' err. generate_report plain_runtime all_ok nameless [] {} = (fs', Inl err)"
    by blast
  with python_case_plain a b c d e lc show ?thesis by blast
qed

subsection \<open>Two runs\<close>




subsection \<open>The order of the report\<close>



subsection \<open>A severity outside of the fixed order\<close>

lemma tables_append: "tables (xs @ ys) = tables xs @ tables ys"
  by (induction xs rule: tables.induct) simp_all

lemma tables_blocks:
  "tables (concat (map (\<lambda>(j, r). finding_block p k i j sev (to_vuln r)) jrs))
     = map (\<lambda>jr. block_cells sev (to_vuln (snd jr))) jrs"
  by (induction jrs) (auto simp: tables_append finding_block_def)

lemma map_snd_enumerate_fun: "map (\<lambda>jx. g (snd jx)) (enumerate n xs) = map g xs"
  by (induction xs arbitrary: n) simp_all

lemma tables_severity_section:
  "tables (severity_section p df k h i sev)
     = map (\<lambda>r. block_cells sev (to_vuln r)) (rows_of df h (Str sev))"
  using map_snd_enumerate_fun [of "\<lambda>r. block_cells sev (to_vuln r)" 1 "rows_of df h (Str sev)"]
  by (simp only: severity_section_def tables.simps tables_blocks)

lemma tables_sections:
  "tables (concat (map (\<lambda>(i, sev). severity_section p df k h i sev) ivs))
     = concat (map (\<lambda>(i, sev). map (\<lambda>r. block_cells sev (to_vuln r)) (rows_of df h (Str sev))) ivs)"
  by (induction ivs) (auto simp: tables_append tables_severity_section)

lemma tables_host_section:
  "tables (host_section p df k h)
     = concat (map (\<lambda>(i, sev). map (\<lambda>r. block_cells sev (to_vuln r)) (rows_of df h (Str sev)))
                 (present df h))"
  by (simp add: host_section_def tables_append tables_sections)

lemma tables_hosts:
  "tables (concat (map (\<lambda>(k, h). host_section p df k h) khs))
     = concat (map (\<lambda>(k, h). tables (host_section p df k h)) khs)"
  by (induction khs) (auto simp: tables_append)

lemma tables_layout:
  "tables (layout p df) = concat (map (\<lambda>(k, h). tables (host_section p df k h)) (hosts_of df))"
  by (simp add: layout_def front_matter_def tables_append tables_hosts)

lemma tables_layout_mem:
  assumes "cs \<in> set (tables (layout p df))"
  shows "\<exists>x sev. x \<in> set df \<and> sev \<in> set severity_order \<and> Risk x = Str sev
           \<and> cs = block_cells sev (to_vuln x) \<and> shd (hd cs) \<noteq> [''D3D3D3'']"
proof -
  from assms obtain k h where "cs \<in> set (tables (host_section p df k h))"
    by (auto simp: tables_layout)
  then obtain i sev where p: "(i, sev) \<in> set (present df h)"
    and c: "cs \<in> (\<lambda>r. block_cells sev (to_vuln r)) ` set (rows_of df h (Str sev))"
    by (auto simp: tables_host_section)
  from p have "(i, sev) \<in> set (enumerate 1 severity_order)"
    unfolding present_def severity_order_def set_filter by blast
  from enumerate_sndD [OF this] have s: "sev \<in> set severity_order" by simp
  from c obtain x where x: "x \<in> set df" "Risk x = Str sev" "cs = block_cells sev (to_vuln x)"
    by (auto simp: rows_of_def)
  from s have "shd (hd (block_cells sev (to_vuln x))) \<noteq> [''D3D3D3'']"
    by (auto simp: severity_order_def block_cells_def severity_rgb_def)
  with s x show ?thesis by blast
qed

lemma length_present_sections:
  "length (concat (map (\<lambda>(i, sev). map (g sev) (R sev)) (filter (\<lambda>(i, sev). R sev \<noteq> []) ivs)))
     = sum_list (map (\<lambda>iv. length (R (snd iv))) ivs)"
  by (induction ivs) auto

lemma rows_charted:
  "length (rows_of df h (Str ''CRITICAL'')) + length (rows_of df h (Str ''MEDIUM''))
     + length (rows_of df h (Str ''LOW''))
   = length (filter (\<lambda>x. Host x = h \<and> charted (Risk x)) df)"
  by (induction df) (auto simp: rows_of_def charted_def)

lemma length_tables_host_section:
  "length (tables (host_section p df k h))
     = length (filter (\<lambda>x. Host x = h \<and> charted (Risk x)) df)"
proof -
  have "length (tables (host_section p df k h))
        = sum_list (map (\<lambda>iv. length (rows_of df h (Str (snd iv))))
                      (enumerate 1 [''CRITICAL'', ''MEDIUM'', ''LOW'']))"
    unfolding tables_host_section present_def
    by (rule length_present_sections
          [of "\<lambda>sev r. block_cells sev (to_vuln r)" "\<lambda>sev. rows_of df h (Str sev)"])
  also have "\<dots> = length (filter (\<lambda>x. Host x = h \<and> charted (Risk x)) df)"
    using rows_charted [of df h] by simp
  finally show ?thesis .
qed

lemma sum_list_indicator:
  "distinct hs \<Longrightarrow> a \<in> set hs \<Longrightarrow>
   sum_list (map (\<lambda>h. if a = h \<and> c then 1 else 0) hs) = (if c then 1 else (0::nat))"
  by (induction hs) auto

lemma sum_by_key:
  assumes "distinct hs" and "f ` set xs \<subseteq> set hs"
  shows "sum_list (map (\<lambda>h. length (filter (\<lambda>x. f x = h \<and> Q x) xs)) hs) = length (filter Q xs)"
  using assms(2)
proof (induction xs)
  case Nil
  show ?case by simp
next
  case (Cons x xs)
  have "sum_list (map (\<lambda>h. length (filter (\<lambda>x. f x = h \<and> Q x) (x # xs))) hs)
        = sum_list (map (\<lambda>h. (if f x = h \<and> Q x then 1 else 0)
                              + length (filter (\<lambda>x. f x = h \<and> Q x) xs)) hs)"
    by (rule arg_cong [of _ _ sum_list]) simp
  also have "\<dots> = sum_list (map (\<lambda>h. if f x = h \<and> Q x then 1 else 0) hs)
                  + sum_list (map (\<lambda>h. length (filter (\<lambda>x. f x = h \<and> Q x) xs)) hs)"
    by (rule sum_list_addf)
  also have "\<dots> = (if Q x then 1 else 0) + length (filter Q xs)"
    using Cons sum_list_indicator [OF assms(1), of "f x" "Q x"] by simp
  finally show ?case by simp
qed

lemma length_tables_layout:
  "length (tables (layout p df)) = length (filter (\<lambda>x. charted (Risk x)) df)"
proof -
  let ?hs = "first_seen (map Host df)"
  have "length (tables (layout p df))
        = sum_list (map (\<lambda>kh. length (filter (\<lambda>x. Host x = snd kh \<and> charted (Risk x)) df))
                      (enumerate 1 ?hs))"
    by (simp add: tables_layout hosts_of_def length_concat o_def split_def
          length_tables_host_section)
  also have "\<dots> = sum_list (map (\<lambda>h. length (filter (\<lambda>x. Host x = h \<and> charted (Risk x)) df)) ?hs)"
    using map_snd_enumerate_fun
            [of "\<lambda>h. length (filter (\<lambda>x. Host x = h \<and> charted (Risk x)) df)" 1 ?hs]
    by (rule arg_cong [of _ _ sum_list])
  also have "\<dots> = length (filter (\<lambda>x. charted (Risk x)) df)"
    by (rule sum_by_key) simp_all
  finally show ?thesis .
qed

lemma severity_counts_without:
  assumes "Risk y \<notin> Str ` set severity_order"
  shows "severity_counts (filter (\<lambda>x. x \<noteq> y) df) = severity_counts df"
proof -
  have "filter (\<lambda>r. Risk r = Str c) (filter (\<lambda>x. x \<noteq> y) df) = filter (\<lambda>r. Risk r = Str c) df"
    if "c \<in> set severity_order" for c
    using that assms by (induction df) auto
  then show ?thesis
    by (simp add: severity_counts_eq severity_order_def)
qed

text \<open>Claim C10, as the program behaves. The claim says that a finding of a severity
  outside of CRITICAL, HIGH, MEDIUM and LOW is rendered, on the grey background. The rendering
  loop goes through CRITICAL, MEDIUM and LOW only: for one finding of severity Info the report
  ends after the heading and the chart of the host, without any block; the grey colour is what
  the colour function would return, and it is never asked.\<close>

theorem other_severity_counterexample:
  "load_findings plain_runtime info_only = Inr info_kept
   \<and> get_severity_color plain_runtime (Str ''INFO'') = Inr ''D3D3D3''
   \<and> generate_report plain_runtime all_ok info_only [] {}
       = ({}, Inr [PageBreak,
                   Paragraph ''1. Statistics'' ''Heading 1'',
                   Picture \<lparr>chart_title = ''Vulnerabilities by Severity'',
                            bars = [(''CRITICAL'', 0), (''MEDIUM'', 0), (''LOW'', 0)]\<rparr>,
                   Paragraph ''\<newline>'' ''Normal'',
                   PageBreak,
                   Paragraph ''2. Executive Summary'' ''Heading 1'',
                   Paragraph ''Add executive summary here...\<newline>'' ''Normal'',
                   PageBreak,
                   Paragraph ''3. Vulnerabilities and Remediations'' ''Heading 1'',
                   Paragraph ''3.1 h1'' ''Heading 2'',
                   Picture \<lparr>chart_title = ''h1 - Vulnerabilities by Severity'',
                            bars = [(''CRITICAL'', 0), (''MEDIUM'', 0), (''LOW'', 0)]\<rparr>])"
proof -
  have a: "load_findings plain_runtime info_only = Inr info_kept"
    by code_simp
  have b: "get_severity_color plain_runtime (Str ''INFO'') = Inr ''D3D3D3''"
    by code_simp
  have c: "generate_report plain_runtime all_ok info_only [] {}
       = ({}, Inr [PageBreak,
                   Paragraph ''1. Statistics'' ''Heading 1'',
                   Picture \<lparr>chart_title = ''Vulnerabilities by Severity'',
                            bars = [(''CRITICAL'', 0), (''MEDIUM'', 0), (''LOW'', 0)]\<rparr>,
                   Paragraph ''\<newline>'' ''Normal'',
                   PageBreak,
                   Paragraph ''2. Executive Summary'' ''Heading 1'',
                   Paragraph ''Add executive summary here...\<newline>'' ''Normal'',
                   PageBreak,
                   Paragraph ''3. Vulnerabilities and Remediations'' ''Heading 1'',
                   Paragraph ''3.1 h1'' ''Heading 2'',
                   Picture \<lparr>chart_title = ''h1 - Vulnerabilities by Severity'',
                            bars = [(''CRITICAL'', 0), (''MEDIUM'', 0), (''LOW'', 0)]\<rparr>])"
    by code_simp
  from a b c show ?thesis by blast
qed

text \<open>Claim C10, amended. In a table with a Risk column as the loader returns it, a row
  whose severity is a string that is not none in lower case and that is none of CRITICAL, HIGH,
  MEDIUM and LOW in upper case is kept, with the upper-case string as its severity, and its
  finding is stored under its host and that severity. No chart counts it: the counts of the
  global chart and of every host's chart are those of the kept rows without it, and the counts
  of the global chart and of the chart of its host add up to fewer than the rows in scope. It is
  not rendered: in every report that is generated, each finding block after the template is the
  block of a kept row of severity CRITICAL, MEDIUM or LOW, none has the grey title background
  D3D3D3, and there are as many blocks as there are such rows, fewer than kept rows.\<close>

theorem other_severity_not_rendered:
  assumes "python_case p" and "r \<in> set df0" and "Risk r = Str s"
    and "rt_lower p s \<noteq> ''none''"
    and "rt_upper p s \<notin> {''CRITICAL'', ''HIGH'', ''MEDIUM'', ''LOW''}"
    and "loaded_column (map Risk df0)"
  shows "\<exists>df. load_findings p df0 = Inr df
       \<and> normalize_row p r \<in> set df
       \<and> Risk (normalize_row p r) = Str (rt_upper p s)
       \<and> stored (group_findings shared df) (Host r) (Str (rt_upper p s))
           (to_vuln (normalize_row p r))
       \<and> severity_counts df = severity_counts (filter (\<lambda>x. x \<noteq> normalize_row p r) df)
       \<and> (\<forall>h. severity_counts (filter (\<lambda>x. cell_eq (Host x) h) df)
              = severity_counts (filter (\<lambda>x. x \<noteq> normalize_row p r)
                                   (filter (\<lambda>x. cell_eq (Host x) h) df)))
       \<and> sum_list (map snd (severity_counts df)) < length df
       \<and> (\<forall>h. Host r = Str h \<longrightarrow>
              sum_list (map snd (severity_counts (filter (\<lambda>x. cell_eq (Host x) (Str h)) df)))
                < length (filter (\<lambda>x. cell_eq (Host x) (Str h)) df))
       \<and> (\<forall>e template fs fs' d.
            generate_report p e df0 template fs = (fs', Inr d) \<longrightarrow>
              (\<forall>cs \<in> set (tables (drop (length template) d)).
                 \<exists>x sev. x \<in> set df \<and> sev \<in> set severity_order \<and> Risk x = Str sev
                   \<and> cs = block_cells sev (to_vuln x) \<and> shd (hd cs) \<noteq> [''D3D3D3''])
              \<and> length (tables (drop (length template) d))
                  = length (filter (\<lambda>x. charted (Risk x)) df)
              \<and> length (tables (drop (length template) d)) < length df)"
proof -
  let ?r = "normalize_row p r"
  let ?df = "map (normalize_row p) (filter (\<lambda>r. \<not> dropped p (Risk r)) df0)"
  have tc: "text_column (map Risk df0)"
    by (rule text_column_mem [OF assms(2,3)])
  have ld: "load_findings p df0 = Inr ?df"
    by (rule load_findings_text [OF tc])
  have keep: "\<not> dropped p (Risk r)"
    using assms(3,4) by simp
  have mem: "?r \<in> set ?df"
    using assms(2) keep by simp
  have risk: "Risk ?r = Str (rt_upper p s)"
    using assms(3,5) by (simp add: normalize_row_def replace_high_def)
  have host: "Host ?r = Host r"
    by (simp add: normalize_row_def)
  have out: "Risk ?r \<notin> Str ` set severity_order"
    using assms(5) by (auto simp: risk severity_order_def)
  have nc: "\<not> charted (Risk ?r)"
    using assms(5) by (simp add: risk charted_def)
  from stored_group_findings [OF mem, of shared]
  have st: "stored (group_findings shared ?df) (Host r) (Str (rt_upper p s)) (to_vuln ?r)"
    by (simp only: host risk)
  have c1: "severity_counts ?df = severity_counts (filter (\<lambda>x. x \<noteq> ?r) ?df)"
    by (rule severity_counts_without [OF out, symmetric])
  have c2: "severity_counts (filter (\<lambda>x. cell_eq (Host x) h) ?df)
              = severity_counts (filter (\<lambda>x. x \<noteq> ?r) (filter (\<lambda>x. cell_eq (Host x) h) ?df))" for h
    by (rule severity_counts_without [OF out, symmetric])
  have s1: "sum_list (map snd (severity_counts ?df)) < length ?df"
    unfolding severity_counts_sum
    using length_filter_less [of ?r ?df "\<lambda>x. Risk x \<in> Str ` set severity_order"] mem out
    by blast
  have s2: "sum_list (map snd (severity_counts (filter (\<lambda>x. cell_eq (Host x) (Str h)) ?df)))
              < length (filter (\<lambda>x. cell_eq (Host x) (Str h)) ?df)" if "Host r = Str h" for h
  proof -
    from that mem host have "?r \<in> set (filter (\<lambda>x. cell_eq (Host x) (Str h)) ?df)"
      by (simp only: set_filter mem_Collect_eq cell_eq.simps)
    with length_filter_less [of ?r "filter (\<lambda>x. cell_eq (Host x) (Str h)) ?df"
           "\<lambda>x. Risk x \<in> Str ` set severity_order"] out
    show ?thesis
      unfolding severity_counts_sum by blast
  qed
  have nt: "length (filter (\<lambda>x. charted (Risk x)) ?df) < length ?df"
    using length_filter_less [of ?r ?df "\<lambda>x. charted (Risk x)"] mem nc by blast
  have rep: "(\<forall>cs \<in> set (tables (drop (length template) d)).
                 \<exists>x sev. x \<in> set ?df \<and> sev \<in> set severity_order \<and> Risk x = Str sev
                   \<and> cs = block_cells sev (to_vuln x) \<and> shd (hd cs) \<noteq> [''D3D3D3''])
              \<and> length (tables (drop (length template) d))
                  = length (filter (\<lambda>x. charted (Risk x)) ?df)
              \<and> length (tables (drop (length template) d)) < length ?df"
    if g: "generate_report p e df0 template fs = (fs', Inr d)" for e template fs fs' d
  proof -
    from generate_report_Inr [OF g assms(1)] obtain df where
      df: "load_findings p df0 = Inr df" and d: "d = template @ layout p df"
      by blast
    from df ld have "df = ?df" by simp
    with d have dr: "drop (length template) d = layout p ?df" by simp
    show ?thesis
      unfolding dr using tables_layout_mem [of _ p ?df] length_tables_layout [of p ?df] nt
      by (intro conjI ballI) simp_all
  qed
  show ?thesis
  proof (intro exI conjI allI impI)
    show "load_findings p df0 = Inr ?df" by (rule ld)
    show "?r \<in> set ?df" by (rule mem)
    show "Risk ?r = Str (rt_upper p s)" by (rule risk)
    show "stored (group_findings shared ?df) (Host r) (Str (rt_upper p s)) (to_vuln ?r)"
      by (rule st)
    show "severity_counts ?df = severity_counts (filter (\<lambda>x. x \<noteq> ?r) ?df)" by (rule c1)
    show "severity_counts (filter (\<lambda>x. cell_eq (Host x) h) ?df)
            = severity_counts (filter (\<lambda>x. x \<noteq> ?r) (filter (\<lambda>x. cell_eq (Host x) h) ?df))" for h
      by (rule c2)
    show "sum_list (map snd (severity_counts ?df)) < length ?df" by (rule s1)
    show "sum_list (map snd (severity_counts (filter (\<lambda>x. cell_eq (Host x) (Str h)) ?df)))
            < length (filter (\<lambda>x. cell_eq (Host x) (Str h)) ?df)" if "Host r = Str h" for h
      by (rule s2 [OF that])
    show "\<forall>cs \<in> set (tables (drop (length template) d)).
                 \<exists>x sev. x \<in> set ?df \<and> sev \<in> set severity_order \<and> Risk x = Str sev
                   \<and> cs = block_cells sev (to_vuln x) \<and> shd (hd cs) \<noteq> [''D3D3D3'']"
      if "generate_report p e df0 template fs = (fs', Inr d)" for e template fs fs' d
      using rep [OF that] by blast
    show "length (tables (drop (length template) d))
            = length (filter (\<lambda>x. charted (Risk x)) ?df)"
      if "generate_report p e df0 template fs = (fs', Inr d)" for e template fs fs' d
      using rep [OF that] by blast
    show "length (tables (drop (length template) d)) < length ?df"
      if "generate_report p e df0 template fs = (fs', Inr d)" for e template fs fs' d
      using rep [OF that] by blast
  qed
qed

theorem other_severity_not_rendered_witness:
  "python_case plain_runtime
   \<and> loaded_column (map Risk info_only)
   \<and> hd info_only \<in> set info_only
   \<and> Risk (hd info_only) = Str ''Info''
   \<and> rt_lower plain_runtime ''Info'' \<noteq> ''none''
   \<and> rt_upper plain_runtime ''Info'' \<notin> {''CRITICAL'', ''HIGH'', ''MEDIUM'', ''LOW''}
   \<and> load_findings plain_runtime info_only = Inr info_kept
   \<and> sum_list (map snd (severity_counts info_kept)) < length info_kept"
proof -
  have a: "hd info_only \<in> set info_only"
    by (simp add: info_only_def)
  have b: "Risk (hd info_only) = Str ''Info''"
    by (simp add: info_only_def finding_def)
  have c: "rt_lower plain_runtime ''Info'' \<noteq> ''none''"
    by code_simp
  have d: "rt_upper plain_runtime ''Info'' \<notin> {''CRITICAL'', ''HIGH'', ''MEDIUM'', ''LOW''}"
    by code_simp
  have e: "load_findings plain_runtime info_only = Inr info_kept"
    by code_simp
  have lc: "loaded_column (map Risk info_only)"
    by code_simp
  from other_severity_not_rendered [OF python_case_plain a b c d lc, of True] e
  have "sum_list (map snd (severity_counts info_kept)) < length info_kept"
    by auto
  with python_case_plain a b c d e lc show ?thesis by blast
qed

end
